theory Spec2Isabelle
  imports Main "HOL-Library.Sublist" "HOL-Library.Multiset" "HOL-Library.AList"
begin

section \<open>Text primitives of the host language\<close>

text \<open>
  The service in \<^verbatim>\<open>graphrag_service.py\<close> works on Python \<^verbatim>\<open>str\<close> values. They are
  modelled as \<^typ>\<open>string\<close>; a \<^typ>\<open>char\<close> stands for one code point below 256, so
  \<^const>\<open>length\<close> is Python's \<^verbatim>\<open>len\<close> on such text. The functions below are the
  library calls the service makes: \<^verbatim>\<open>str.isspace\<close>, \<^verbatim>\<open>strip\<close>, \<^verbatim>\<open>lower\<close>,
  \<^verbatim>\<open>split()\<close>, \<^verbatim>\<open>split(sep)\<close>, \<^verbatim>\<open>replace\<close>, \<^verbatim>\<open>endswith\<close>, \<^verbatim>\<open>in\<close> and
  \<^verbatim>\<open>join\<close>.
\<close>

definition newline :: char where
  "newline = CHR 0x0A"

definition double_newline :: string where
  "double_newline = [newline, newline]"

definition is_space :: "char \<Rightarrow> bool" where
  \<comment> \<open>\<^verbatim>\<open>str.isspace\<close> on one code point below 256: TAB..CR, FS..US, space, NEL, NBSP.\<close>
  "is_space c =
     (let n = of_char c :: nat
      in (9 \<le> n \<and> n \<le> 13) \<or> (28 \<le> n \<and> n \<le> 32) \<or> n = 133 \<or> n = 160)"

definition lstrip :: "string \<Rightarrow> string" where
  "lstrip s = dropWhile is_space s"

definition rstrip :: "string \<Rightarrow> string" where
  "rstrip s = rev (dropWhile is_space (rev s))"

definition strip :: "string \<Rightarrow> string" where
  "strip s = rstrip (lstrip s)"

definition lower_char :: "char \<Rightarrow> char" where
  \<comment> \<open>\<^verbatim>\<open>str.lower\<close> on one code point below 256: A..Z and the accented capitals
      0xC0..0xDE (the multiplication sign 0xD7 apart) move up by 32.\<close>
  "lower_char c =
     (let n = of_char c :: nat
      in if (65 \<le> n \<and> n \<le> 90) \<or> (192 \<le> n \<and> n \<le> 222 \<and> n \<noteq> 215)
         then char_of (n + 32) else c)"

definition lower :: "string \<Rightarrow> string" where
  "lower s = map lower_char s"

fun split_ws_from :: "string \<Rightarrow> string \<Rightarrow> string list" where
  \<comment> \<open>\<^verbatim>\<open>str.split()\<close> without a separator: maximal runs of non-space characters.
      The first argument is the token being read.\<close>
  "split_ws_from cur [] = (if cur = [] then [] else [cur])"
| "split_ws_from cur (c # cs) =
     (if is_space c
      then (if cur = [] then split_ws_from [] cs else cur # split_ws_from [] cs)
      else split_ws_from (cur @ [c]) cs)"

definition split_ws :: "string \<Rightarrow> string list" where
  "split_ws s = split_ws_from [] s"

function split_sep_from :: "string \<Rightarrow> string \<Rightarrow> string \<Rightarrow> string list" where
  \<comment> \<open>\<^verbatim>\<open>str.split(sep)\<close> for a non-empty separator, left to right without overlap.
      The second argument is the piece being read.\<close>
  "split_sep_from sep cur [] = [cur]"
| "split_sep_from sep cur (c # cs) =
     (if sep \<noteq> [] \<and> prefix sep (c # cs)
      then cur # split_sep_from sep [] (drop (length sep) (c # cs))
      else split_sep_from sep (cur @ [c]) cs)"
  by pat_completeness auto
termination
  by (relation "measure (\<lambda>(sep, cur, s). length s)") (auto simp: neq_Nil_conv)

definition split_sep :: "string \<Rightarrow> string \<Rightarrow> string list" where
  "split_sep sep s = split_sep_from sep [] s"

function replace :: "string \<Rightarrow> string \<Rightarrow> string \<Rightarrow> string" where
  \<comment> \<open>\<^verbatim>\<open>s.replace(old, new)\<close>: every occurrence of \<open>old\<close>, left to right without
      overlap. With an empty \<open>old\<close> Python puts \<open>new\<close> before every character and at the end.\<close>
  "replace [] new s = new @ concat (map (\<lambda>c. c # new) s)"
| "replace (a # old) new [] = []"
| "replace (a # old) new (c # cs) =
     (if prefix (a # old) (c # cs)
      then new @ replace (a # old) new (drop (length (a # old)) (c # cs))
      else c # replace (a # old) new cs)"
  by pat_completeness auto
termination
  by (relation "measure (\<lambda>(old, new, s). length s)") auto

definition endswith :: "string \<Rightarrow> string \<Rightarrow> bool" where
  "endswith s suf = suffix suf s"

definition contains :: "string \<Rightarrow> string \<Rightarrow> bool" where
  \<comment> \<open>\<^verbatim>\<open>sub in s\<close>\<close>
  "contains s sub = sublist sub s"

fun join :: "string \<Rightarrow> string list \<Rightarrow> string" where
  "join sep [] = []"
| "join sep [x] = x"
| "join sep (x # y # ys) = x @ sep @ join sep (y # ys)"

section \<open>Paths and the filesystem\<close>

text \<open>
  A path is the list of its components below the root, as \<^verbatim>\<open>pathlib\<close> parses a POSIX
  path: the text is cut at every slash, empty components and single dots are dropped,
  a double dot stays. The filesystem is a list of entries in the order in which the
  operating system enumerates them; a lookup takes the first entry of a path. A regular
  file either decodes as UTF-8 to the text stored in it or does not decode at all. Symbolic links and
  permissions are outside the model, and a double dot is looked up like any other name;
  operations fail exactly where the tree's structure makes them fail.
\<close>

type_synonym path = "string list"

datatype node = Dir | File string | Undecodable

type_synonym filesystem = "(path \<times> node) list"

datatype error =
    FileExistsError | NotADirectoryError | FileNotFoundError
  | IsADirectoryError | UnicodeDecodeError

definition path_parts :: "string \<Rightarrow> path" where
  "path_parts s = filter (\<lambda>x. x \<noteq> [] \<and> x \<noteq> ''.'') (split_sep ''/'' s)"

definition path_name :: "string \<Rightarrow> string" where
  \<comment> \<open>\<^verbatim>\<open>Path(s).name\<close>: the last component, empty when there is none.\<close>
  "path_name s = (let ps = path_parts s in if ps = [] then [] else last ps)"

definition rfind :: "char \<Rightarrow> string \<Rightarrow> nat option" where
  \<comment> \<open>\<^verbatim>\<open>s.rfind(c)\<close>, with \<open>None\<close> for Python's \<open>-1\<close>.\<close>
  "rfind c s =
     (if c \<in> set s then Some (length s - 1 - length (takeWhile (\<lambda>x. x \<noteq> c) (rev s)))
      else None)"

definition path_stem :: "string \<Rightarrow> string" where
  \<comment> \<open>\<^verbatim>\<open>Path(s).stem\<close> as \<^verbatim>\<open>pathlib\<close> computes it up to Python 3.13: the name
      without its last suffix; a dot that leads or ends the name starts no suffix.\<close>
  "path_stem s =
     (let name = path_name s
      in case rfind CHR ''.'' name of
           None \<Rightarrow> name
         | Some i \<Rightarrow> if 0 < i \<and> i + 1 < length name then take i name else name)"

definition joinpath :: "path \<Rightarrow> string \<Rightarrow> path" where
  \<comment> \<open>\<^verbatim>\<open>d / s\<close>: an absolute right operand replaces the left one.\<close>
  "joinpath d s = (if prefix ''/'' s then path_parts s else d @ path_parts s)"

definition is_dir :: "filesystem \<Rightarrow> path \<Rightarrow> bool" where
  "is_dir fs p = (p = [] \<or> map_of fs p = Some Dir)"

definition path_exists :: "filesystem \<Rightarrow> path \<Rightarrow> bool" where
  "path_exists fs p = (p = [] \<or> map_of fs p \<noteq> None)"

fun mkdirs_from :: "filesystem \<Rightarrow> path \<Rightarrow> string list \<Rightarrow> error + filesystem" where
  "mkdirs_from fs cur [] = Inr fs"
| "mkdirs_from fs cur (c # cs) =
     (let p = cur @ [c]
      in case map_of fs p of
           None \<Rightarrow> mkdirs_from (fs @ [(p, Dir)]) p cs
         | Some Dir \<Rightarrow> mkdirs_from fs p cs
         | Some _ \<Rightarrow> Inl (if cs = [] then FileExistsError else NotADirectoryError))"

definition mkdir_parents :: "filesystem \<Rightarrow> path \<Rightarrow> error + filesystem" where
  \<comment> \<open>\<^verbatim>\<open>p.mkdir(parents=True, exist_ok=True)\<close>\<close>
  "mkdir_parents fs p = mkdirs_from fs [] p"

fun universal_newlines :: "string \<Rightarrow> string" where
  \<comment> \<open>What reading in text mode does to line ends: a carriage return with the line
      feed after it, and a carriage return alone, become one line feed.\<close>
  "universal_newlines [] = []"
| "universal_newlines [c] = [if c = CHR 0x0D then newline else c]"
| "universal_newlines (c # d # cs) =
     (if c = CHR 0x0D
      then (if d = newline then newline # universal_newlines cs
            else newline # universal_newlines (d # cs))
      else c # universal_newlines (d # cs))"

definition read_text :: "filesystem \<Rightarrow> path \<Rightarrow> error + string" where
  \<comment> \<open>\<^verbatim>\<open>p.read_text(encoding="utf-8")\<close>: the stored text with its line ends
      translated.\<close>
  "read_text fs p =
     (if p = [] then Inl IsADirectoryError
      else case map_of fs p of
             None \<Rightarrow> Inl FileNotFoundError
           | Some Dir \<Rightarrow> Inl IsADirectoryError
           | Some Undecodable \<Rightarrow> Inl UnicodeDecodeError
           | Some (File c) \<Rightarrow> Inr (universal_newlines c))"

definition write_text :: "filesystem \<Rightarrow> path \<Rightarrow> string \<Rightarrow> error + filesystem" where
  \<comment> \<open>\<^verbatim>\<open>p.write_text(c, encoding="utf-8")\<close>: the file is created or replaced, its
      directory has to be there; on a POSIX system the text is stored as it is.\<close>
  "write_text fs p c =
     (if is_dir fs p then Inl IsADirectoryError
      else if \<not> path_exists fs (butlast p) then Inl FileNotFoundError
      else if \<not> is_dir fs (butlast p) then Inl NotADirectoryError
      else Inr (AList.update p (File c) fs))"

definition dir_entries :: "filesystem \<Rightarrow> path \<Rightarrow> string \<Rightarrow> path list" where
  \<comment> \<open>The entries directly below \<open>d\<close> whose name ends in \<open>ext\<close>, files and
      directories alike, in the order of the listing.\<close>
  "dir_entries fs d ext =
     filter (\<lambda>p. p \<noteq> [] \<and> butlast p = d \<and> suffix ext (last p)) (map fst fs)"

definition glob_suffix :: "filesystem \<Rightarrow> path \<Rightarrow> string \<Rightarrow> path list" where
  \<comment> \<open>\<^verbatim>\<open>d.glob("*" + ext)\<close>: nothing when \<open>d\<close> is no directory.\<close>
  "glob_suffix fs d ext = (if is_dir fs d then dir_entries fs d ext else [])"

definition rmtree :: "filesystem \<Rightarrow> path \<Rightarrow> filesystem" where
  "rmtree fs p = filter (\<lambda>(q, n). \<not> prefix p q) fs"

definition name_of :: "path \<Rightarrow> string" where
  \<comment> \<open>\<^verbatim>\<open>p.name\<close>\<close>
  "name_of p = (if p = [] then [] else last p)"

definition path_str :: "path \<Rightarrow> string" where
  \<comment> \<open>\<^verbatim>\<open>str(p)\<close>\<close>
  "path_str p = (if p = [] then ''/'' else concat (map (\<lambda>c. ''/'' @ c) p))"

section \<open>The service and its surroundings\<close>

text \<open>
  What the service reads from outside is gathered in one record: the settings, the
  process environment, the behaviour of the external \<^verbatim>\<open>graphrag\<close> binary (a function of
  its arguments, its environment and the filesystem it runs on) and whether the
  operating system refuses to remove a tree. A conversation identifier is the text of a
  UUID (hexadecimal digits and dashes), one path component. The data directory of the
  settings is read as an absolute path. The printed lines are kept as values of a
  datatype, one constructor for each kind of line, with the values the line shows.

  Every operation takes the filesystem and returns the new one, its result and the
  events it caused: the lines it printed and the processes it spawned. An exception that
  leaves the operation is the \<open>Inl\<close> of the result.
\<close>

type_synonym uuid = string

record settings =
  openai_api_key :: string
  openai_model :: string
  openai_embedding_model :: string
  openai_base_url :: string
  graphrag_data_dir :: string

datatype proc_result =
    Exited int string string  \<comment> \<open>return code, decoded stdout, decoded stderr\<close>
  | BinaryNotFound            \<comment> \<open>\<^verbatim>\<open>FileNotFoundError\<close> from the spawn\<close>
  | OtherException            \<comment> \<open>any other exception in the \<^verbatim>\<open>try\<close> block\<close>

record world =
  config :: settings
  environ :: "(string \<times> string) list"
  run_process ::
    "string list \<Rightarrow> (string \<times> string) list \<Rightarrow> filesystem \<Rightarrow> proc_result \<times> filesystem"
  rmtree_fails :: "filesystem \<Rightarrow> path \<Rightarrow> bool"

datatype message =
    ShortDocumentWarning string nat
  | SavedDocument string nat
  | DebugHeader uuid
  | DebugNoFiles
  | DebugFile string "string option"
  | DebugFooter
  | NoDocuments
  | Validating nat
  | FileCharacters string nat
  | ErrorReadingFile string
  | TotalCharacters nat nat
  | InsufficientContent
  | LowVolumeWarning
  | ApiKeyNotSet
  | GeneratedSettings path
  | UsingBaseUrl string
  | StartingIndexing path string string
  | IndexingFailed int
  | StderrText string
  | StdoutText string
  | EmptyDataFrameTip
  | ChunkingTip
  | IndexingCompleted
  | GeneratedArtifacts nat
  | CliNotFound
  | IndexingException
  | Traceback
  | NoIndexFound
  | InvalidMethod string
  | Querying string string
  | QueryError
  | RawResponseLength nat
  | EmptyResponse
  | QueryCompleted
  | QueryException
  | SearchReadError string
  | SearchFound nat
  | DeletedConversation uuid
  | DeleteError

datatype event = Print message | Spawn "string list" "(string \<times> string) list"

fun is_spawn :: "event \<Rightarrow> bool" where
  "is_spawn (Spawn argv env) = True"
| "is_spawn (Print m) = False"

definition bind_error :: "error + 'a \<Rightarrow> ('a \<Rightarrow> error + 'b) \<Rightarrow> error + 'b" where
  \<comment> \<open>Sequencing: an exception of the first step leaves the whole operation.\<close>
  "bind_error m f = (case m of Inl e \<Rightarrow> Inl e | Inr x \<Rightarrow> f x)"

subsection \<open>Directory helpers\<close>

definition base_dir :: "world \<Rightarrow> path" where
  "base_dir w = path_parts (graphrag_data_dir (config w))"

definition get_conversation_dir :: "world \<Rightarrow> filesystem \<Rightarrow> uuid \<Rightarrow> error + (path \<times> filesystem)" where
  "get_conversation_dir w fs conversation_id =
     (let conv_dir = base_dir w @ [conversation_id]
      in bind_error (mkdir_parents fs conv_dir) (\<lambda>fs1. Inr (conv_dir, fs1)))"

definition get_input_dir :: "world \<Rightarrow> filesystem \<Rightarrow> uuid \<Rightarrow> error + (path \<times> filesystem)" where
  "get_input_dir w fs conversation_id =
     bind_error (get_conversation_dir w fs conversation_id) (\<lambda>(conv_dir, fs1).
       let input_dir = conv_dir @ [''input'']
       in bind_error (mkdir_parents fs1 input_dir) (\<lambda>fs2. Inr (input_dir, fs2)))"

definition get_output_dir :: "world \<Rightarrow> filesystem \<Rightarrow> uuid \<Rightarrow> error + (path \<times> filesystem)" where
  "get_output_dir w fs conversation_id =
     bind_error (get_conversation_dir w fs conversation_id) (\<lambda>(conv_dir, fs1).
       let output_dir = conv_dir @ [''output'']
       in bind_error (mkdir_parents fs1 output_dir) (\<lambda>fs2. Inr (output_dir, fs2)))"

definition get_cache_dir :: "world \<Rightarrow> filesystem \<Rightarrow> uuid \<Rightarrow> error + (path \<times> filesystem)" where
  "get_cache_dir w fs conversation_id =
     bind_error (get_conversation_dir w fs conversation_id) (\<lambda>(conv_dir, fs1).
       let cache_dir = conv_dir @ [''cache'']
       in bind_error (mkdir_parents fs1 cache_dir) (\<lambda>fs2. Inr (cache_dir, fs2)))"

subsection \<open>Document handling\<close>

definition save_document ::
  "world \<Rightarrow> filesystem \<Rightarrow> uuid \<Rightarrow> string \<Rightarrow> string \<Rightarrow> error + (path \<times> filesystem \<times> event list)" where
  "save_document w fs conversation_id filename content =
     bind_error (get_input_dir w fs conversation_id) (\<lambda>(input_dir, fs1).
       let filename' = (if \<not> endswith filename ''.txt'' then path_stem filename @ ''.txt''
                        else filename);
           content1 = strip content;
           warning = (if length content1 < 100
                      then [Print (ShortDocumentWarning filename' (length content1))] else []);
           content2 = (if \<not> contains content1 double_newline \<and> length content1 > 200
                       then replace ''. '' (''.'' @ double_newline) content1 else content1);
           content3 = (if \<not> endswith content2 [newline] then content2 @ [newline]
                       else content2);
           file_path = joinpath input_dir filename'
       in bind_error (write_text fs1 file_path content3) (\<lambda>fs2.
            Inr (file_path, fs2,
                 warning @ [Print (SavedDocument filename' (length content3))])))"

fun debug_files :: "filesystem \<Rightarrow> path list \<Rightarrow> event list" where
  "debug_files fs [] = []"
| "debug_files fs (f # rest) =
     Print (DebugFile (name_of f)
              (case read_text fs f of Inl e \<Rightarrow> None | Inr content \<Rightarrow> Some content))
       # debug_files fs rest"

definition debug_input_files :: "world \<Rightarrow> filesystem \<Rightarrow> uuid \<Rightarrow> error + (filesystem \<times> event list)" where
  "debug_input_files w fs conversation_id =
     bind_error (get_input_dir w fs conversation_id) (\<lambda>(input_dir, fs1).
       let txt_files = glob_suffix fs1 input_dir ''.txt''
       in if txt_files = []
          then Inr (fs1, [Print (DebugHeader conversation_id), Print DebugNoFiles])
          else Inr (fs1, [Print (DebugHeader conversation_id)] @ debug_files fs1 txt_files
                           @ [Print DebugFooter]))"

subsection \<open>Settings document\<close>

definition create_settings_yaml :: "world \<Rightarrow> uuid \<Rightarrow> string" where
  \<open>create_settings_yaml w conversation_id = join [newline]
     [''encoding_model: cl100k_base'',
      ''skip_workflows: []'',
      [],
      ''llm:'',
      ''  api_key: ${GRAPHRAG_API_KEY}'',
      ''  type: openai_chat'',
      ''  model: '' @ openai_model (config w),
      ''  max_tokens: 4000'',
      ''  temperature: 0.0'',
      ''  request_timeout: 180.0'',
      [],
      ''embeddings:'',
      ''  async_mode: threaded'',
      ''  llm:'',
      ''    api_key: ${GRAPHRAG_API_KEY}'',
      ''    type: openai_embedding'',
      ''    model: '' @ openai_embedding_model (config w),
      ''    request_timeout: 180.0'',
      [],
      ''input:'',
      ''  type: file'',
      ''  file_type: text'',
      ''  base_dir: "input"'',
      ''  encoding: utf-8'',
      [],
      ''storage:'',
      ''  type: file'',
      ''  base_dir: "output"'',
      [],
      ''cache:'',
      ''  type: file'',
      ''  base_dir: "cache"'',
      [],
      ''chunks:'',
      ''  size: 300'',
      ''  overlap: 50'',
      ''  group_by_columns: [id]'',
      [],
      ''entity_extraction:'',
      ''  max_gleanings: 1'',
      ''  entity_types: [organization, person, location, event, concept, technology, law, regulation]'',
      [],
      ''claim_extraction:'',
      ''  enabled: false'',
      [],
      ''community_reports:'',
      ''  max_length: 1500'',
      [],
      ''local_search:'',
      ''  text_unit_prop: 0.5'',
      ''  community_prop: 0.25'',
      ''  conversation_history_max_turns: 5'',
      ''  top_k_entities: 10'',
      ''  top_k_relationships: 10'',
      ''  max_tokens: 8000'',
      [],
      ''global_search:'',
      ''  max_tokens: 8000'',
      ''  data_max_tokens: 8000'',
      ''  map_max_tokens: 4000'',
      ''  reduce_max_tokens: 4000'']\<close>

subsection \<open>Indexing\<close>

definition process_env :: "world \<Rightarrow> (string \<times> string) list" where
  \<comment> \<open>The copy of the environment handed to the binary: the credential under two names,
      the custom endpoint when one is set.\<close>
  "process_env w =
     (let env = AList.update ''OPENAI_API_KEY'' (openai_api_key (config w))
                  (AList.update ''GRAPHRAG_API_KEY'' (openai_api_key (config w)) (environ w))
      in if openai_base_url (config w) \<noteq> []
         then AList.update ''OPENAI_BASE_URL'' (openai_base_url (config w)) env else env)"

fun validate_files ::
  "filesystem \<Rightarrow> path list \<Rightarrow> nat \<Rightarrow> event list \<Rightarrow> bool \<times> nat \<times> event list" where
  \<comment> \<open>The validation loop: \<open>False\<close> as soon as one file cannot be read.\<close>
  "validate_files fs [] total_chars log = (True, total_chars, log)"
| "validate_files fs (txt_file # rest) total_chars log =
     (case read_text fs txt_file of
        Inl e \<Rightarrow> (False, total_chars, log @ [Print (ErrorReadingFile (name_of txt_file))])
      | Inr content \<Rightarrow>
          validate_files fs rest (total_chars + length content)
            (log @ [Print (FileCharacters (name_of txt_file) (length content))]))"

definition index_argv :: "path \<Rightarrow> string list" where
  "index_argv conv_dir = [''graphrag'', ''index'', ''--root'', path_str conv_dir, ''--verbose'']"

definition run_index ::
  "world \<Rightarrow> filesystem \<Rightarrow> uuid \<Rightarrow> bool \<Rightarrow> path \<Rightarrow> bool \<times> filesystem \<times> event list" where
  \<comment> \<open>The \<^verbatim>\<open>try\<close> block of \<^verbatim>\<open>build_index\<close>: spawn, wait, interpret.\<close>
  "run_index w fs conversation_id debug conv_dir =
     (let env = process_env w;
          spawned = [Spawn (index_argv conv_dir) env]
      in case run_process w (index_argv conv_dir) env fs of
           (BinaryNotFound, fs1) \<Rightarrow> (False, fs1, spawned @ [Print CliNotFound])
         | (OtherException, fs1) \<Rightarrow>
             (False, fs1, spawned @ [Print IndexingException]
                            @ (if debug then [Print Traceback] else []))
         | (Exited returncode stdout_text stderr_text, fs1) \<Rightarrow>
             if returncode \<noteq> 0
             then (False, fs1,
                   spawned @ [Print (IndexingFailed returncode)]
                     @ (if stderr_text \<noteq> [] then [Print (StderrText stderr_text)] else [])
                     @ (if stdout_text \<noteq> [] then [Print (StdoutText stdout_text)] else [])
                     @ (if contains stdout_text ''Empty DataFrame''
                        then [Print EmptyDataFrameTip] else [])
                     @ (if contains stdout_text ''create_base_text_units''
                        then [Print ChunkingTip] else []))
             else (case get_output_dir w fs1 conversation_id of
                     Inl e \<Rightarrow>
                       (False, fs1, spawned @ [Print IndexingCompleted, Print IndexingException]
                                      @ (if debug then [Print Traceback] else []))
                   | Inr (artifacts_dir, fs2) \<Rightarrow>
                       (True, fs2,
                        spawned @ [Print IndexingCompleted]
                          @ (if path_exists fs2 artifacts_dir
                             then [Print (GeneratedArtifacts
                                     (length (glob_suffix fs2 artifacts_dir ''.parquet'')))]
                             else []))))"

definition index_documents ::
  "world \<Rightarrow> filesystem \<Rightarrow> uuid \<Rightarrow> bool \<Rightarrow> path \<Rightarrow> path
     \<Rightarrow> error + (bool \<times> filesystem \<times> event list)" where
  \<comment> \<open>\<^verbatim>\<open>build_index\<close> from the validation of the input files on: the directories
      of the workspace are there.\<close>
  "index_documents w fs conversation_id debug conv_dir input_dir =
     (let txt_files = glob_suffix fs input_dir ''.txt''
      in if txt_files = [] then Inr (False, fs, [Print NoDocuments])
         else
           let (readable, total_chars, log1) =
                 validate_files fs txt_files 0 [Print (Validating (length txt_files))]
           in if \<not> readable then Inr (False, fs, log1)
              else
                let log2 = log1 @ [Print (TotalCharacters total_chars (length txt_files))]
                in if total_chars < 50 then Inr (False, fs, log2 @ [Print InsufficientContent])
                   else
                     let log3 = log2 @ (if total_chars < 200 then [Print LowVolumeWarning]
                                        else [])
                     in bind_error (if debug then debug_input_files w fs conversation_id
                                    else Inr (fs, [])) (\<lambda>(fs5, dumped).
                          if openai_api_key (config w) = []
                          then Inr (False, fs5, log3 @ dumped @ [Print ApiKeyNotSet])
                          else
                            let settings_path = joinpath conv_dir ''settings.yaml''
                            in bind_error (write_text fs5 settings_path
                                             (create_settings_yaml w conversation_id)) (\<lambda>fs6.
                                 let log4 = log3 @ dumped @ [Print (GeneratedSettings settings_path)]
                                       @ (if openai_base_url (config w) \<noteq> []
                                          then [Print (UsingBaseUrl (openai_base_url (config w)))]
                                          else [])
                                       @ [Print (StartingIndexing conv_dir
                                                   (openai_model (config w))
                                                   (openai_embedding_model (config w)))];
                                     (ok, fs7, log5) = run_index w fs6 conversation_id debug conv_dir
                                 in Inr (ok, fs7, log4 @ log5))))"

definition build_index ::
  "world \<Rightarrow> filesystem \<Rightarrow> uuid \<Rightarrow> bool \<Rightarrow> error + (bool \<times> filesystem \<times> event list)" where
  "build_index w fs conversation_id debug =
     bind_error (get_conversation_dir w fs conversation_id) (\<lambda>(conv_dir, fs1).
     bind_error (get_input_dir w fs1 conversation_id) (\<lambda>(input_dir, fs2).
     bind_error (get_output_dir w fs2 conversation_id) (\<lambda>(output_dir, fs3).
     bind_error (get_cache_dir w fs3 conversation_id) (\<lambda>(cache_dir, fs4).
       index_documents w fs4 conversation_id debug conv_dir input_dir))))"

subsection \<open>Querying\<close>

definition query_argv :: "path \<Rightarrow> string \<Rightarrow> string \<Rightarrow> string list" where
  "query_argv conv_dir method query_text =
     [''graphrag'', ''query'',
      ''--config'', path_str (joinpath conv_dir ''settings.yaml''),
      ''--root'', path_str conv_dir,
      ''--method'', method,
      ''--query'', query_text]"

definition run_query ::
  "world \<Rightarrow> filesystem \<Rightarrow> bool \<Rightarrow> path \<Rightarrow> string \<Rightarrow> string
     \<Rightarrow> string option \<times> filesystem \<times> event list" where
  \<comment> \<open>The \<^verbatim>\<open>try\<close> block of \<^verbatim>\<open>query\<close>: spawn, wait, interpret.\<close>
  "run_query w fs debug conv_dir method query_text =
     (let env = process_env w;
          spawned = [Spawn (query_argv conv_dir method query_text) env]
      in case run_process w (query_argv conv_dir method query_text) env fs of
           (BinaryNotFound, fs1) \<Rightarrow> (None, fs1, spawned @ [Print CliNotFound])
         | (OtherException, fs1) \<Rightarrow>
             (None, fs1, spawned @ [Print QueryException]
                           @ (if debug then [Print Traceback] else []))
         | (Exited returncode out err, fs1) \<Rightarrow>
             let stdout_text = strip out;
                 stderr_text = strip err
             in if returncode \<noteq> 0
                then (None, fs1,
                      spawned @ [Print QueryError]
                        @ (if stderr_text \<noteq> [] then [Print (StderrText stderr_text)] else [])
                        @ (if stdout_text \<noteq> [] then [Print (StdoutText stdout_text)] else []))
                else
                  let raw = (if debug then [Print (RawResponseLength (length stdout_text))]
                             else [])
                  in if stdout_text = []
                     then (None, fs1, spawned @ raw @ [Print EmptyResponse])
                     else (Some stdout_text, fs1, spawned @ raw @ [Print QueryCompleted]))"

definition query ::
  "world \<Rightarrow> filesystem \<Rightarrow> uuid \<Rightarrow> string \<Rightarrow> string \<Rightarrow> bool
     \<Rightarrow> error + (string option \<times> filesystem \<times> event list)" where
  "query w fs conversation_id query_text method debug =
     bind_error (get_conversation_dir w fs conversation_id) (\<lambda>(conv_dir, fs1).
     bind_error (get_output_dir w fs1 conversation_id) (\<lambda>(output_dir, fs2).
       let artifacts_dir = output_dir
       in if \<not> path_exists fs2 artifacts_dir then Inr (None, fs2, [Print NoIndexFound])
          else
            let log1 = (if method \<notin> set [''local'', ''global'']
                        then [Print (InvalidMethod method)] else []);
                method' = (if method \<notin> set [''local'', ''global''] then ''local'' else method)
            in if openai_api_key (config w) = []
               then Inr (None, fs2, log1 @ [Print ApiKeyNotSet])
               else
                 let log2 = log1 @ [Print (Querying method'
                                     (take 100 query_text
                                        @ (if length query_text > 100 then ''...'' else [])))];
                     (answer, fs3, log3) = run_query w fs2 debug conv_dir method' query_text
                 in Inr (answer, fs3, log2 @ log3)))"

subsection \<open>Fallback search\<close>

type_synonym hit = "nat \<times> string \<times> string"

fun scan_paragraphs :: "string set \<Rightarrow> string \<Rightarrow> string list \<Rightarrow> hit list \<Rightarrow> hit list" where
  \<comment> \<open>The inner loop: \<open>relevant\<close> grows by one entry for each paragraph that is long
      enough and shares a word with the query.\<close>
  "scan_paragraphs query_words filename [] relevant = relevant"
| "scan_paragraphs query_words filename (p # rest) relevant =
     (let paragraph = strip p
      in if length paragraph < 50 then scan_paragraphs query_words filename rest relevant
         else
           let words = set (split_ws (lower paragraph));
               overlap = card (words \<inter> query_words)
           in if overlap \<ge> 1
              then scan_paragraphs query_words filename rest
                     (relevant @ [(overlap, take 800 paragraph, filename)])
              else scan_paragraphs query_words filename rest relevant)"

fun scan_files ::
  "filesystem \<Rightarrow> string set \<Rightarrow> path list \<Rightarrow> hit list \<Rightarrow> event list
     \<Rightarrow> hit list \<times> event list" where
  \<comment> \<open>The outer loop: a file that cannot be read is reported and skipped.\<close>
  "scan_files fs query_words [] relevant log = (relevant, log)"
| "scan_files fs query_words (file_path # rest) relevant log =
     (case read_text fs file_path of
        Inl e \<Rightarrow>
          scan_files fs query_words rest relevant
            (log @ [Print (SearchReadError (name_of file_path))])
      | Inr content \<Rightarrow>
          scan_files fs query_words rest
            (scan_paragraphs query_words (name_of file_path)
               (split_sep double_newline content) relevant) log)"

definition sort_reverse :: "('a \<Rightarrow> 'k::linorder) \<Rightarrow> 'a list \<Rightarrow> 'a list" where
  \<comment> \<open>\<^verbatim>\<open>xs.sort(key=f, reverse=True)\<close>: the list is reversed, sorted stably by the
      key and reversed again.\<close>
  "sort_reverse f xs = rev (sort_key f (rev xs))"

definition slice_to :: "'a list \<Rightarrow> int \<Rightarrow> 'a list" where
  \<comment> \<open>\<^verbatim>\<open>xs[:n]\<close>: a negative \<open>n\<close> counts from the end.\<close>
  "slice_to xs n = (if n < 0 then take (length xs - nat (- n)) xs else take (nat n) xs)"

definition format_chunk :: "hit \<Rightarrow> string" where
  "format_chunk h = (case h of (overlap, chunk, filename) \<Rightarrow>
     ''[From: '' @ filename @ '']'' @ [newline] @ chunk)"

definition chunk_separator :: string where
  "chunk_separator = double_newline @ ''---'' @ double_newline"

definition simple_search ::
  "world \<Rightarrow> filesystem \<Rightarrow> uuid \<Rightarrow> string \<Rightarrow> int
     \<Rightarrow> error + (string option \<times> filesystem \<times> event list)" where
  "simple_search w fs conversation_id query_text max_results =
     bind_error (get_input_dir w fs conversation_id) (\<lambda>(input_dir, fs1).
       let txt_files = glob_suffix fs1 input_dir ''.txt''
       in if txt_files = [] then Inr (None, fs1, [])
          else
            let query_words = set (split_ws (lower query_text));
                (relevant, log1) = scan_files fs1 query_words txt_files [] []
            in if relevant = [] then Inr (None, fs1, log1)
               else
                 let sorted_hits = sort_reverse fst relevant;
                     top_chunks = map format_chunk (slice_to sorted_hits max_results);
                     result = join chunk_separator top_chunks
                 in Inr (Some result, fs1, log1 @ [Print (SearchFound (length top_chunks))]))"

subsection \<open>Status helpers\<close>

text \<open>
  The dictionary returned by \<^verbatim>\<open>get_index_stats\<close>; its keys \<^verbatim>\<open>has_index\<close> and
  \<^verbatim>\<open>has_documents\<close> are the fields \<open>has_index_flag\<close> and \<open>has_documents_flag\<close>, the
  plain names being those of the two methods.
\<close>

record index_stats =
  has_index_flag :: bool
  has_documents_flag :: bool
  document_count :: nat
  total_characters :: nat
  artifact_count :: nat

definition has_index :: "world \<Rightarrow> filesystem \<Rightarrow> uuid \<Rightarrow> error + (bool \<times> filesystem)" where
  "has_index w fs conversation_id =
     bind_error (get_output_dir w fs conversation_id) (\<lambda>(artifacts_dir, fs1).
       Inr (path_exists fs1 artifacts_dir
              \<and> length (glob_suffix fs1 artifacts_dir ''.parquet'') > 0, fs1))"

definition has_documents :: "world \<Rightarrow> filesystem \<Rightarrow> uuid \<Rightarrow> error + (bool \<times> filesystem)" where
  "has_documents w fs conversation_id =
     bind_error (get_input_dir w fs conversation_id) (\<lambda>(input_dir, fs1).
       Inr (length (glob_suffix fs1 input_dir ''.txt'') > 0, fs1))"

fun count_documents :: "filesystem \<Rightarrow> path list \<Rightarrow> index_stats \<Rightarrow> index_stats" where
  \<comment> \<open>The document loop of the statistics: every entry counts, an unreadable one adds
      no characters.\<close>
  "count_documents fs [] stats = stats"
| "count_documents fs (txt_file # rest) stats =
     (let stats1 = stats\<lparr>document_count := document_count stats + 1\<rparr>
      in case read_text fs txt_file of
           Inl e \<Rightarrow> count_documents fs rest stats1
         | Inr content \<Rightarrow>
             count_documents fs rest
               (stats1\<lparr>total_characters := total_characters stats1 + length content\<rparr>))"

definition get_index_stats :: "world \<Rightarrow> filesystem \<Rightarrow> uuid \<Rightarrow> error + (index_stats \<times> filesystem)" where
  "get_index_stats w fs conversation_id =
     bind_error (has_index w fs conversation_id) (\<lambda>(indexed, fs1).
     bind_error (has_documents w fs1 conversation_id) (\<lambda>(documented, fs2).
       let stats = \<lparr>has_index_flag = indexed, has_documents_flag = documented,
                    document_count = 0, total_characters = 0, artifact_count = 0\<rparr>
       in bind_error (get_input_dir w fs2 conversation_id) (\<lambda>(input_dir, fs3).
            let stats1 = count_documents fs3 (glob_suffix fs3 input_dir ''.txt'') stats
            in bind_error (get_output_dir w fs3 conversation_id) (\<lambda>(artifacts_dir, fs4).
                 Inr (if path_exists fs4 artifacts_dir
                      then stats1\<lparr>artifact_count :=
                                    length (glob_suffix fs4 artifacts_dir ''.parquet'')\<rparr>
                      else stats1, fs4)))))"

definition delete_conversation_data ::
  "world \<Rightarrow> filesystem \<Rightarrow> uuid \<Rightarrow> error + (bool \<times> filesystem \<times> event list)" where
  "delete_conversation_data w fs conversation_id =
     bind_error (get_conversation_dir w fs conversation_id) (\<lambda>(conv_dir, fs1).
       if path_exists fs1 conv_dir
       then (if rmtree_fails w fs1 conv_dir then Inr (False, fs1, [Print DeleteError])
             else Inr (True, rmtree fs1 conv_dir, [Print (DeletedConversation conversation_id)]))
       else Inr (False, fs1, []))"

subsection \<open>Notions used in the statements and proofs\<close>

definition trimmed :: "string \<Rightarrow> bool" where
  \<comment> \<open>No white space at either end.\<close>
  "trimmed t = (t = [] \<or> (\<not> is_space (hd t) \<and> \<not> is_space (last t)))"

fun dirs_ready :: "filesystem \<Rightarrow> path \<Rightarrow> string list \<Rightarrow> bool" where
  \<comment> \<open>Every directory on the way from \<open>cur\<close> down the components is there.\<close>
  "dirs_ready fs cur [] = True"
| "dirs_ready fs cur (c # cs) =
     (map_of fs (cur @ [c]) = Some Dir \<and> dirs_ready fs (cur @ [c]) cs)"

definition extends :: "filesystem \<Rightarrow> filesystem \<Rightarrow> bool" where
  \<comment> \<open>Every entry of the first filesystem is an entry of the second.\<close>
  "extends fs fs' = (\<forall>q n. map_of fs q = Some n \<longrightarrow> map_of fs' q = Some n)"




fun total_chars :: "filesystem \<Rightarrow> path list \<Rightarrow> nat option" where
  \<comment> \<open>The total character count across the files: there is one when every file can be
      read.\<close>
  "total_chars fs [] = Some 0"
| "total_chars fs (f # rest) =
     (case read_text fs f of
        Inl e \<Rightarrow> None
      | Inr content \<Rightarrow> map_option (\<lambda>n. length content + n) (total_chars fs rest))"

subsection \<open>The fallback search in the words of the specification\<close>

definition overlap_score :: "string \<Rightarrow> string \<Rightarrow> nat" where
  \<comment> \<open>The number of distinct lowercase whitespace tokens a paragraph shares with the
      query.\<close>
  "overlap_score query_text paragraph =
     card (set (split_ws (lower paragraph)) \<inter> set (split_ws (lower query_text)))"

definition file_hits :: "string \<Rightarrow> string \<Rightarrow> string \<Rightarrow> hit list" where
  \<comment> \<open>The paragraphs of one document that score: stripped, at least 50 characters
      long, with a positive score; cut to 800 characters and labelled with the file.\<close>
  "file_hits query_text filename content =
     map (\<lambda>p. (overlap_score query_text p, take 800 p, filename))
       (filter (\<lambda>p. length p \<ge> 50 \<and> overlap_score query_text p > 0)
          (map strip (split_sep double_newline content)))"

definition readable_documents :: "filesystem \<Rightarrow> path list \<Rightarrow> (string \<times> string) list" where
  \<comment> \<open>Names and texts of the files that can be read, in the order of the listing.\<close>
  "readable_documents fs files =
     concat (map (\<lambda>f. case read_text fs f of Inl e \<Rightarrow> [] | Inr content \<Rightarrow> [(name_of f, content)])
               files)"

definition spec_search :: "(string \<times> string) list \<Rightarrow> string \<Rightarrow> int \<Rightarrow> string option" where
  \<comment> \<open>The scoring paragraphs in file order then paragraph order, sorted by descending
      score with ties in that order, the first \<open>max_results\<close> of them kept; none when no
      paragraph scores.\<close>
  "spec_search documents query_text max_results =
     (let hits = concat (map (\<lambda>(filename, content). file_hits query_text filename content)
                          documents);
          ranked = sort_key (\<lambda>h. - int (fst h)) hits
      in if hits = [] then None
         else Some (join chunk_separator (map format_chunk (take (nat max_results) ranked))))"

fun creatable :: "filesystem \<Rightarrow> path \<Rightarrow> string list \<Rightarrow> bool" where
  \<comment> \<open>No file stands where a directory on the way down the components has to be.\<close>
  "creatable fs cur [] = True"
| "creatable fs cur (c # cs) =
     ((map_of fs (cur @ [c]) = None \<or> map_of fs (cur @ [c]) = Some Dir)
      \<and> creatable fs (cur @ [c]) cs)"

definition workspace_creatable :: "world \<Rightarrow> filesystem \<Rightarrow> uuid \<Rightarrow> bool" where
  \<comment> \<open>The directories of a conversation's workspace are there or can be made.\<close>
  "workspace_creatable w fs i =
     (creatable fs [] (base_dir w @ [i, ''input''])
      \<and> creatable fs [] (base_dir w @ [i, ''output''])
      \<and> creatable fs [] (base_dir w @ [i, ''cache'']))"

definition adds_dirs :: "filesystem \<Rightarrow> filesystem \<Rightarrow> bool" where
  \<comment> \<open>The second filesystem is the first with directories added at free paths.\<close>
  "adds_dirs fs fs' =
     (\<forall>q. map_of fs' q = map_of fs q \<or> (map_of fs q = None \<and> map_of fs' q = Some Dir))"


subsection \<open>Concrete inputs\<close>

definition cid0 :: uuid where
  "cid0 = ''6f1c2a9e-7b3d-4c58-9e21-0a4d5b6c7d8e''"

definition world0 :: world where
  \<comment> \<open>A configured service whose binary answers every call with exit code 0.\<close>
  "world0 =
     \<lparr>config = \<lparr>openai_api_key = ''sk-test'', openai_model = ''gpt-4o'',
                 openai_embedding_model = ''text-embedding-ada-002'',
                 openai_base_url = [], graphrag_data_dir = ''/app/graphrag_data''\<rparr>,
      environ = [],
      run_process = (\<lambda>argv env fs. (Exited 0 ''The lease term is five years.'' [], fs)),
      rmtree_fails = (\<lambda>fs p. False)\<rparr>"

definition workspace0 :: path where
  "workspace0 = [''app'', ''graphrag_data'', cid0]"

definition lease_text :: string where
  "lease_text =
     ''  The lease term is five years and begins on the first day of March. The tenant shall pay the rent monthly in advance. The landlord shall keep the roof and the outer walls in good repair. Either party may end the lease with six months notice.  ''"

definition lease_written :: string where
  "lease_written =
     ''The lease term is five years and begins on the first day of March.'' @ double_newline
     @ ''The tenant shall pay the rent monthly in advance.'' @ double_newline
     @ ''The landlord shall keep the roof and the outer walls in good repair.'' @ double_newline
     @ ''Either party may end the lease with six months notice.'' @ [newline]"

definition fs_saved :: filesystem where
  \<comment> \<open>The filesystem after \<open>lease_text\<close> was saved as \<^verbatim>\<open>lease.docx\<close> on an empty disk.\<close>
  "fs_saved =
     [([''app''], Dir), ([''app'', ''graphrag_data''], Dir), (workspace0, Dir),
      (workspace0 @ [''input''], Dir),
      (workspace0 @ [''input'', ''lease.txt''], File lease_written)]"

definition note40 :: string where
  "note40 = ''The lease term is five years from March.''"

definition note60 :: string where
  "note60 = ''The lease term is five years and it begins on the 1st March.''"

definition fs_note :: "string \<Rightarrow> filesystem" where
  \<comment> \<open>A workspace whose only document is \<^verbatim>\<open>note.txt\<close> with the given text.\<close>
  "fs_note c =
     [([''app''], Dir), ([''app'', ''graphrag_data''], Dir), (workspace0, Dir),
      (workspace0 @ [''input''], Dir),
      (workspace0 @ [''input'', ''note.txt''], File c)]"

definition clause_rent :: string where
  "clause_rent = ''The landlord may end the lease early only for unpaid rent.''"

definition clause_term :: string where
  "clause_term = ''The lease term is five years and begins on the first of March.''"

definition clause_renewal :: string where
  "clause_renewal = ''A renewal of the lease term needs the consent of both parties.''"

definition fs_two :: filesystem where
  \<comment> \<open>A workspace with two documents: \<^verbatim>\<open>a.txt\<close> holds a paragraph sharing one word with
      the query \<^verbatim>\<open>lease term\<close>, a short paragraph and a paragraph sharing two words;
      \<^verbatim>\<open>b.txt\<close> holds one paragraph sharing two words.\<close>
  "fs_two =
     [([''app''], Dir), ([''app'', ''graphrag_data''], Dir), (workspace0, Dir),
      (workspace0 @ [''input''], Dir),
      (workspace0 @ [''input'', ''a.txt''],
       File (clause_rent @ double_newline @ ''See the lease term'' @ double_newline
               @ clause_term @ [newline])),
      (workspace0 @ [''input'', ''b.txt''], File (clause_renewal @ [newline]))]"

definition fs_indexed :: filesystem where
  \<comment> \<open>A workspace with one document and two artifacts of a build.\<close>
  "fs_indexed =
     fs_note note60
       @ [(workspace0 @ [''output''], Dir), (workspace0 @ [''cache''], Dir),
          (workspace0 @ [''output'', ''create_final_entities.parquet''], Undecodable),
          (workspace0 @ [''output'', ''create_final_relationships.parquet''], Undecodable)]"

definition fs_mixed :: filesystem where
  \<comment> \<open>A workspace with a readable document of 60 characters and a file that does not
      decode.\<close>
  "fs_mixed = fs_note note60 @ [(workspace0 @ [''input'', ''zbad.txt''], Undecodable)]"

section \<open>Facts about the text primitives\<close>



lemma rstrip_keep: "t \<noteq> [] \<Longrightarrow> \<not> is_space (last t) \<Longrightarrow> rstrip t = t"
  by (cases t rule: rev_cases) (simp_all add: rstrip_def)


lemma lstrip_keep: "t \<noteq> [] \<Longrightarrow> \<not> is_space (hd t) \<Longrightarrow> lstrip t = t"
  by (cases t) (simp_all add: lstrip_def)




lemma strip_trimmed: "trimmed t \<Longrightarrow> strip t = t"
proof (cases "t = []")
  case True
  then show ?thesis by (simp add: strip_def lstrip_def rstrip_def)
next
  case False
  assume "trimmed t"
  with False have h: "\<not> is_space (hd t)" and l: "\<not> is_space (last t)"
    by (auto simp: trimmed_def)
  show ?thesis
    by (simp add: strip_def lstrip_keep[OF False h] rstrip_keep[OF False l])
qed














section \<open>Facts about the filesystem\<close>


lemma extends_refl: "extends fs fs"
  by (simp add: extends_def)

lemma extends_trans: "extends a b \<Longrightarrow> extends b c \<Longrightarrow> extends a c"
  by (simp add: extends_def)

lemma dirs_ready_append:
  "dirs_ready fs cur (xs @ ys) \<longleftrightarrow> dirs_ready fs cur xs \<and> dirs_ready fs (cur @ xs) ys"
  by (induction xs arbitrary: cur) auto

lemma dirs_ready_extends: "dirs_ready fs cur cs \<Longrightarrow> extends fs fs' \<Longrightarrow> dirs_ready fs' cur cs"
  by (induction cs arbitrary: cur) (auto simp: extends_def)

lemma mkdirs_extends: "mkdirs_from fs cur cs = Inr fs' \<Longrightarrow> extends fs fs'"
proof (induction cs arbitrary: fs cur)
  case Nil
  then show ?case by (simp add: extends_def)
next
  case (Cons c cs)
  show ?case
  proof (cases "map_of fs (cur @ [c])")
    case None
    then have "mkdirs_from (fs @ [(cur @ [c], Dir)]) (cur @ [c]) cs = Inr fs'"
      using Cons.prems by (simp add: Let_def)
    then have "extends (fs @ [(cur @ [c], Dir)]) fs'" by (rule Cons.IH)
    moreover have "extends fs (fs @ [(cur @ [c], Dir)])"
      by (auto simp: extends_def map_add_def)
    ultimately show ?thesis by (rule extends_trans[rotated])
  next
    case (Some n)
    then show ?thesis using Cons by (cases n) (auto simp: Let_def)
  qed
qed

lemma mkdirs_ready: "mkdirs_from fs cur cs = Inr fs' \<Longrightarrow> dirs_ready fs' cur cs"
proof (induction cs arbitrary: fs cur)
  case Nil
  then show ?case by simp
next
  case (Cons c cs)
  show ?case
  proof (cases "map_of fs (cur @ [c])")
    case None
    then have m: "mkdirs_from (fs @ [(cur @ [c], Dir)]) (cur @ [c]) cs = Inr fs'"
      using Cons.prems by (simp add: Let_def)
    have "map_of (fs @ [(cur @ [c], Dir)]) (cur @ [c]) = Some Dir"
      using None by (simp add: map_add_def)
    then have "map_of fs' (cur @ [c]) = Some Dir"
      using mkdirs_extends[OF m] by (simp add: extends_def)
    then show ?thesis using Cons.IH[OF m] by simp
  next
    case (Some n)
    show ?thesis
    proof (cases n)
      case Dir
      then have m: "mkdirs_from fs (cur @ [c]) cs = Inr fs'"
        using Cons.prems Some by (simp add: Let_def)
      have "map_of fs' (cur @ [c]) = Some Dir"
        using mkdirs_extends[OF m] Some Dir by (simp add: extends_def)
      then show ?thesis using Cons.IH[OF m] by simp
    qed (use Cons.prems Some in \<open>auto simp: Let_def\<close>)
  qed
qed

lemma mkdirs_noop: "dirs_ready fs cur cs \<Longrightarrow> mkdirs_from fs cur cs = Inr fs"
  by (induction cs arbitrary: cur) auto

lemma mkdirs_entries:
  "mkdirs_from fs cur cs = Inr fs' \<Longrightarrow> length (cur @ cs) \<le> length d \<Longrightarrow>
   dir_entries fs' d ext = dir_entries fs d ext"
proof (induction cs arbitrary: fs cur)
  case Nil
  then show ?case by simp
next
  case (Cons c cs)
  show ?case
  proof (cases "map_of fs (cur @ [c])")
    case None
    then have m: "mkdirs_from (fs @ [(cur @ [c], Dir)]) (cur @ [c]) cs = Inr fs'"
      using Cons.prems by (simp add: Let_def)
    have "dir_entries fs' d ext = dir_entries (fs @ [(cur @ [c], Dir)]) d ext"
      using Cons.IH[OF m] Cons.prems(2) by simp
    moreover have "butlast (cur @ [c]) \<noteq> d" using Cons.prems(2) by auto
    ultimately show ?thesis by (simp add: dir_entries_def)
  next
    case (Some n)
    show ?thesis
    proof (cases n)
      case Dir
      then have m: "mkdirs_from fs (cur @ [c]) cs = Inr fs'"
        using Cons.prems Some by (simp add: Let_def)
      show ?thesis using Cons.IH[OF m] Cons.prems(2) by simp
    qed (use Cons.prems Some in \<open>auto simp: Let_def\<close>)
  qed
qed


lemma subdir_result:
  assumes "mkdir_parents fs (b @ [i]) = Inr fs1"
    and "mkdir_parents fs1 ((b @ [i]) @ [s]) = Inr fs2"
  shows "extends fs fs2"
    and "dirs_ready fs2 [] (b @ [i, s])"
    and "length (b @ [i, s]) \<le> length e \<Longrightarrow> dir_entries fs2 e ext = dir_entries fs e ext"
proof -
  have e1: "extends fs fs1" and e2: "extends fs1 fs2"
    using assms by (auto simp: mkdir_parents_def intro: mkdirs_extends)
  show "extends fs fs2" using e1 e2 by (rule extends_trans)
  show "dirs_ready fs2 [] (b @ [i, s])"
    using mkdirs_ready[of fs1 "[]" "(b @ [i]) @ [s]" fs2] assms(2)
    by (simp add: mkdir_parents_def)
  assume len: "length (b @ [i, s]) \<le> length e"
  have "dir_entries fs1 e ext = dir_entries fs e ext"
    using mkdirs_entries[of fs "[]" "b @ [i]" fs1 e ext] assms(1) len
    by (simp add: mkdir_parents_def)
  moreover have "dir_entries fs2 e ext = dir_entries fs1 e ext"
    using mkdirs_entries[of fs1 "[]" "(b @ [i]) @ [s]" fs2 e ext] assms(2) len
    by (simp add: mkdir_parents_def)
  ultimately show "dir_entries fs2 e ext = dir_entries fs e ext" by simp
qed

lemma get_conversation_dir_result:
  assumes "get_conversation_dir w fs i = Inr (d, fs')"
  shows "d = base_dir w @ [i]" and "mkdir_parents fs (base_dir w @ [i]) = Inr fs'"
  using assms
  by (auto simp: get_conversation_dir_def bind_error_def Let_def split: sum.splits)

lemma get_conversation_dir_facts:
  assumes "get_conversation_dir w fs i = Inr (d, fs')"
  shows "extends fs fs'"
    and "dirs_ready fs' [] (base_dir w @ [i])"
    and "length (base_dir w @ [i]) \<le> length e \<Longrightarrow> dir_entries fs' e ext = dir_entries fs e ext"
proof -
  have m: "mkdirs_from fs [] (base_dir w @ [i]) = Inr fs'"
    using get_conversation_dir_result(2)[OF assms] by (simp add: mkdir_parents_def)
  show "extends fs fs'" using m by (rule mkdirs_extends)
  show "dirs_ready fs' [] (base_dir w @ [i])" using m by (rule mkdirs_ready)
  assume "length (base_dir w @ [i]) \<le> length e"
  then show "dir_entries fs' e ext = dir_entries fs e ext"
    using mkdirs_entries[OF m, of e ext] by simp
qed

lemma get_conversation_dir_noop:
  "dirs_ready fs [] (base_dir w @ [i]) \<Longrightarrow>
   get_conversation_dir w fs i = Inr (base_dir w @ [i], fs)"
  by (simp add: get_conversation_dir_def bind_error_def Let_def mkdir_parents_def mkdirs_noop)

lemma get_input_dir_result:
  assumes "get_input_dir w fs i = Inr (d, fs')"
  shows "d = base_dir w @ [i, ''input'']"
    and "\<exists>fs1. mkdir_parents fs (base_dir w @ [i]) = Inr fs1
           \<and> mkdir_parents fs1 ((base_dir w @ [i]) @ [''input'']) = Inr fs'"
  using assms
  by (auto simp: get_input_dir_def get_conversation_dir_def bind_error_def Let_def
           split: sum.splits)

lemma get_output_dir_result:
  assumes "get_output_dir w fs i = Inr (d, fs')"
  shows "d = base_dir w @ [i, ''output'']"
    and "\<exists>fs1. mkdir_parents fs (base_dir w @ [i]) = Inr fs1
           \<and> mkdir_parents fs1 ((base_dir w @ [i]) @ [''output'']) = Inr fs'"
  using assms
  by (auto simp: get_output_dir_def get_conversation_dir_def bind_error_def Let_def
           split: sum.splits)

lemma get_cache_dir_result:
  assumes "get_cache_dir w fs i = Inr (d, fs')"
  shows "d = base_dir w @ [i, ''cache'']"
    and "\<exists>fs1. mkdir_parents fs (base_dir w @ [i]) = Inr fs1
           \<and> mkdir_parents fs1 ((base_dir w @ [i]) @ [''cache'']) = Inr fs'"
  using assms
  by (auto simp: get_cache_dir_def get_conversation_dir_def bind_error_def Let_def
           split: sum.splits)

lemma get_input_dir_facts:
  assumes "get_input_dir w fs i = Inr (d, fs')"
  shows "extends fs fs'"
    and "dirs_ready fs' [] (base_dir w @ [i, ''input''])"
    and "length (base_dir w @ [i, ''input'']) \<le> length e
           \<Longrightarrow> dir_entries fs' e ext = dir_entries fs e ext"
  using get_input_dir_result(2)[OF assms] subdir_result[of fs "base_dir w" i _ "''input''" fs']
  by blast+

lemma get_output_dir_facts:
  assumes "get_output_dir w fs i = Inr (d, fs')"
  shows "extends fs fs'"
    and "dirs_ready fs' [] (base_dir w @ [i, ''output''])"
    and "length (base_dir w @ [i, ''output'']) \<le> length e
           \<Longrightarrow> dir_entries fs' e ext = dir_entries fs e ext"
  using get_output_dir_result(2)[OF assms] subdir_result[of fs "base_dir w" i _ "''output''" fs']
  by blast+

lemma get_cache_dir_facts:
  assumes "get_cache_dir w fs i = Inr (d, fs')"
  shows "extends fs fs'"
    and "dirs_ready fs' [] (base_dir w @ [i, ''cache''])"
    and "length (base_dir w @ [i, ''cache'']) \<le> length e
           \<Longrightarrow> dir_entries fs' e ext = dir_entries fs e ext"
  using get_cache_dir_result(2)[OF assms] subdir_result[of fs "base_dir w" i _ "''cache''" fs']
  by blast+

lemma dirs_ready_conv:
  "dirs_ready fs [] (b @ [i, s]) \<Longrightarrow> dirs_ready fs [] (b @ [i])"
  using dirs_ready_append[of fs "[]" "b @ [i]" "[s]"] by simp

lemma dirs_ready_is_dir: "dirs_ready fs [] p \<Longrightarrow> is_dir fs p"
proof (cases p rule: rev_cases)
  case Nil
  then show ?thesis by (simp add: is_dir_def)
next
  case (snoc ys y)
  assume "dirs_ready fs [] p"
  then show ?thesis
    using dirs_ready_append[of fs "[]" ys "[y]"] snoc by (simp add: is_dir_def)
qed

lemma get_input_dir_noop:
  "dirs_ready fs [] (base_dir w @ [i, ''input'']) \<Longrightarrow>
   get_input_dir w fs i = Inr (base_dir w @ [i, ''input''], fs)"
  using dirs_ready_conv[of fs "base_dir w" i "''input''"]
  by (simp add: get_input_dir_def get_conversation_dir_noop bind_error_def Let_def
        mkdir_parents_def mkdirs_noop)

lemma get_output_dir_noop:
  "dirs_ready fs [] (base_dir w @ [i, ''output'']) \<Longrightarrow>
   get_output_dir w fs i = Inr (base_dir w @ [i, ''output''], fs)"
  using dirs_ready_conv[of fs "base_dir w" i "''output''"]
  by (simp add: get_output_dir_def get_conversation_dir_noop bind_error_def Let_def
        mkdir_parents_def mkdirs_noop)

lemma get_cache_dir_noop:
  "dirs_ready fs [] (base_dir w @ [i, ''cache'']) \<Longrightarrow>
   get_cache_dir w fs i = Inr (base_dir w @ [i, ''cache''], fs)"
  using dirs_ready_conv[of fs "base_dir w" i "''cache''"]
  by (simp add: get_cache_dir_def get_conversation_dir_noop bind_error_def Let_def
        mkdir_parents_def mkdirs_noop)


lemma adds_dirs_refl: "adds_dirs fs fs"
  by (simp add: adds_dirs_def)

lemma adds_dirs_trans: "adds_dirs a b \<Longrightarrow> adds_dirs b c \<Longrightarrow> adds_dirs a c"
  unfolding adds_dirs_def by metis

lemma adds_dirs_snoc: "map_of fs p = None \<Longrightarrow> adds_dirs fs (fs @ [(p, Dir)])"
  by (auto simp: adds_dirs_def map_add_def split: option.splits)

lemma mkdirs_adds_dirs: "mkdirs_from fs cur cs = Inr fs' \<Longrightarrow> adds_dirs fs fs'"
proof (induction cs arbitrary: fs cur)
  case Nil
  then show ?case by (simp add: adds_dirs_refl)
next
  case (Cons c cs)
  show ?case
  proof (cases "map_of fs (cur @ [c])")
    case None
    then have "mkdirs_from (fs @ [(cur @ [c], Dir)]) (cur @ [c]) cs = Inr fs'"
      using Cons.prems by (simp add: Let_def)
    then have "adds_dirs (fs @ [(cur @ [c], Dir)]) fs'" by (rule Cons.IH)
    with adds_dirs_snoc[OF None] show ?thesis by (rule adds_dirs_trans)
  next
    case (Some n)
    then show ?thesis using Cons by (cases n) (auto simp: Let_def)
  qed
qed

lemma creatable_adds: "adds_dirs fs fs' \<Longrightarrow> creatable fs cur cs \<Longrightarrow> creatable fs' cur cs"
proof (induction cs arbitrary: cur)
  case Nil
  then show ?case by simp
next
  case (Cons c cs)
  from Cons.prems(1) have
    "map_of fs' (cur @ [c]) = map_of fs (cur @ [c])
     \<or> (map_of fs (cur @ [c]) = None \<and> map_of fs' (cur @ [c]) = Some Dir)"
    unfolding adds_dirs_def by (rule spec)
  then show ?case using Cons by auto
qed

lemma mkdirs_creatable: "creatable fs cur cs \<Longrightarrow> \<exists>fs'. mkdirs_from fs cur cs = Inr fs'"
proof (induction cs arbitrary: fs cur)
  case Nil
  then show ?case by simp
next
  case (Cons c cs)
  show ?case
  proof (cases "map_of fs (cur @ [c])")
    case None
    have "creatable (fs @ [(cur @ [c], Dir)]) (cur @ [c]) cs"
      using creatable_adds[OF adds_dirs_snoc[OF None]] Cons.prems by simp
    from Cons.IH[OF this] show ?thesis using None by (simp add: Let_def)
  next
    case (Some n)
    then have n: "n = Dir" using Cons.prems by simp
    have "creatable fs (cur @ [c]) cs" using Cons.prems by simp
    from Cons.IH[OF this] show ?thesis using Some n by (simp add: Let_def)
  qed
qed

lemma creatable_append:
  "creatable fs cur (xs @ ys) \<longleftrightarrow> creatable fs cur xs \<and> creatable fs (cur @ xs) ys"
  by (induction xs arbitrary: cur) auto

lemma subdir_creatable:
  assumes "creatable fs [] (b @ [i, s])"
  shows "\<exists>fs1 fs2. mkdir_parents fs (b @ [i]) = Inr fs1
           \<and> mkdir_parents fs1 ((b @ [i]) @ [s]) = Inr fs2 \<and> adds_dirs fs fs2"
proof -
  have "creatable fs [] (b @ [i])"
    using assms creatable_append[of fs "[]" "b @ [i]" "[s]"] by simp
  then obtain fs1 where m1: "mkdirs_from fs [] (b @ [i]) = Inr fs1"
    using mkdirs_creatable by blast
  have a1: "adds_dirs fs fs1" using m1 by (rule mkdirs_adds_dirs)
  then have "creatable fs1 [] (b @ [i, s])" using assms by (rule creatable_adds)
  then obtain fs2 where m2: "mkdirs_from fs1 [] ((b @ [i]) @ [s]) = Inr fs2"
    using mkdirs_creatable[of fs1 "[]" "b @ [i, s]"] by auto
  have "adds_dirs fs fs2" using a1 mkdirs_adds_dirs[OF m2] by (rule adds_dirs_trans)
  then show ?thesis using m1 m2 by (auto simp: mkdir_parents_def)
qed

lemma get_conversation_dir_creatable:
  assumes "creatable fs [] (base_dir w @ [i, s])"
  shows "\<exists>fs'. get_conversation_dir w fs i = Inr (base_dir w @ [i], fs') \<and> adds_dirs fs fs'"
proof -
  have "creatable fs [] (base_dir w @ [i])"
    using assms creatable_append[of fs "[]" "base_dir w @ [i]" "[s]"] by simp
  then obtain fs1 where m1: "mkdirs_from fs [] (base_dir w @ [i]) = Inr fs1"
    using mkdirs_creatable by blast
  then show ?thesis
    using mkdirs_adds_dirs[OF m1]
    by (auto simp: get_conversation_dir_def bind_error_def mkdir_parents_def Let_def)
qed

lemma get_input_dir_creatable:
  assumes "creatable fs [] (base_dir w @ [i, ''input''])"
  shows "\<exists>fs'. get_input_dir w fs i = Inr (base_dir w @ [i, ''input''], fs') \<and> adds_dirs fs fs'"
  using subdir_creatable[OF assms]
  by (auto simp: get_input_dir_def get_conversation_dir_def bind_error_def Let_def)

lemma get_output_dir_creatable:
  assumes "creatable fs [] (base_dir w @ [i, ''output''])"
  shows "\<exists>fs'. get_output_dir w fs i = Inr (base_dir w @ [i, ''output''], fs') \<and> adds_dirs fs fs'"
  using subdir_creatable[OF assms]
  by (auto simp: get_output_dir_def get_conversation_dir_def bind_error_def Let_def)

lemma get_cache_dir_creatable:
  assumes "creatable fs [] (base_dir w @ [i, ''cache''])"
  shows "\<exists>fs'. get_cache_dir w fs i = Inr (base_dir w @ [i, ''cache''], fs') \<and> adds_dirs fs fs'"
  using subdir_creatable[OF assms]
  by (auto simp: get_cache_dir_def get_conversation_dir_def bind_error_def Let_def)

lemma mkdirs_elsewhere:
  "mkdirs_from fs cur cs = Inr fs' \<Longrightarrow> \<not> prefix q (cur @ cs) \<Longrightarrow> map_of fs' q = map_of fs q"
proof (induction cs arbitrary: fs cur)
  case Nil
  then show ?case by simp
next
  case (Cons c cs)
  have q: "q \<noteq> cur @ [c]"
  proof
    assume "q = cur @ [c]"
    then have "prefix q (cur @ c # cs)" by simp
    with Cons.prems(2) show False by (rule notE)
  qed
  have np: "\<not> prefix q ((cur @ [c]) @ cs)" using Cons.prems(2) by simp
  show ?case
  proof (cases "map_of fs (cur @ [c])")
    case None
    then have m: "mkdirs_from (fs @ [(cur @ [c], Dir)]) (cur @ [c]) cs = Inr fs'"
      using Cons.prems(1) by (simp add: Let_def)
    have "map_of fs' q = map_of (fs @ [(cur @ [c], Dir)]) q" using m np by (rule Cons.IH)
    also have "\<dots> = map_of fs q" using q by (auto simp: map_add_def split: option.splits)
    finally show ?thesis .
  next
    case (Some n)
    show ?thesis
    proof (cases n)
      case Dir
      then have m: "mkdirs_from fs (cur @ [c]) cs = Inr fs'"
        using Cons.prems(1) Some by (simp add: Let_def)
      show ?thesis using m np by (rule Cons.IH)
    qed (use Cons.prems Some in \<open>auto simp: Let_def\<close>)
  qed
qed

lemma subdir_elsewhere:
  assumes "mkdir_parents fs (b @ [i]) = Inr fs1"
    and "mkdir_parents fs1 ((b @ [i]) @ [s]) = Inr fs2"
    and "\<not> prefix q (b @ [i, s])"
  shows "map_of fs2 q = map_of fs q"
proof -
  have "\<not> prefix q (b @ [i])"
    using assms(3) prefix_order.order_trans[of q "b @ [i]" "b @ [i, s]"] by auto
  then have "map_of fs1 q = map_of fs q"
    using mkdirs_elsewhere[of fs "[]" "b @ [i]" fs1 q] assms(1) by (simp add: mkdir_parents_def)
  moreover have "map_of fs2 q = map_of fs1 q"
    using mkdirs_elsewhere[of fs1 "[]" "(b @ [i]) @ [s]" fs2 q] assms(2,3)
    by (simp add: mkdir_parents_def)
  ultimately show ?thesis by simp
qed

lemma get_conversation_dir_elsewhere:
  assumes "get_conversation_dir w fs i = Inr (d, fs')" and "\<not> prefix q (base_dir w @ [i])"
  shows "map_of fs' q = map_of fs q"
  using mkdirs_elsewhere[of fs "[]" "base_dir w @ [i]" fs' q]
    get_conversation_dir_result(2)[OF assms(1)] assms(2)
  by (simp add: mkdir_parents_def)

lemma get_input_dir_elsewhere:
  assumes "get_input_dir w fs i = Inr (d, fs')" and "\<not> prefix q (base_dir w @ [i, ''input''])"
  shows "map_of fs' q = map_of fs q"
  using get_input_dir_result(2)[OF assms(1)] subdir_elsewhere[of fs "base_dir w" i _ "''input''" fs' q]
    assms(2)
  by blast

lemma get_output_dir_elsewhere:
  assumes "get_output_dir w fs i = Inr (d, fs')" and "\<not> prefix q (base_dir w @ [i, ''output''])"
  shows "map_of fs' q = map_of fs q"
  using get_output_dir_result(2)[OF assms(1)] subdir_elsewhere[of fs "base_dir w" i _ "''output''" fs' q]
    assms(2)
  by blast

lemma get_cache_dir_elsewhere:
  assumes "get_cache_dir w fs i = Inr (d, fs')" and "\<not> prefix q (base_dir w @ [i, ''cache''])"
  shows "map_of fs' q = map_of fs q"
  using get_cache_dir_result(2)[OF assms(1)] subdir_elsewhere[of fs "base_dir w" i _ "''cache''" fs' q]
    assms(2)
  by blast

section \<open>Facts about saving a document\<close>



lemma write_text_read:
  "write_text fs p c = Inr fs' \<Longrightarrow> read_text fs' p = Inr (universal_newlines c)"
  by (auto simp: write_text_def read_text_def is_dir_def update_conv' split: if_splits)

lemma write_text_returns:
  assumes "dirs_ready fs [] d" and "map_of fs (d @ [n]) \<noteq> Some Dir"
  shows "write_text fs (d @ [n]) c = Inr (AList.update (d @ [n]) (File c) fs)"
  using dirs_ready_is_dir[OF assms(1)] assms(2)
  by (auto simp: write_text_def is_dir_def path_exists_def)









section \<open>Saving a document\<close>



lemma split_slash_none:
  "CHR ''/'' \<notin> set s \<Longrightarrow> split_sep_from ''/'' cur s = [cur @ s]"
  by (induction s arbitrary: cur) auto


lemma path_parts_plain:
  "CHR ''/'' \<notin> set s \<Longrightarrow> s \<noteq> [] \<Longrightarrow> s \<noteq> ''.'' \<Longrightarrow> path_parts s = [s]"
  by (simp add: path_parts_def split_sep_def split_slash_none)




lemma joinpath_plain:
  "CHR ''/'' \<notin> set s \<Longrightarrow> s \<noteq> [] \<Longrightarrow> s \<noteq> ''.'' \<Longrightarrow> joinpath d s = d @ [s]"
  by (cases s) (auto simp: joinpath_def path_parts_plain)




lemma save_lease:
  "save_document world0 [] cid0 ''lease.docx'' lease_text
     = Inr (workspace0 @ [''input'', ''lease.txt''], fs_saved,
            [Print (SavedDocument ''lease.txt'' (length lease_written))])"
  by code_simp









section \<open>Status helpers\<close>


lemma dirs_ready_exists: "dirs_ready fs [] p \<Longrightarrow> path_exists fs p"
  using dirs_ready_is_dir[of fs p] by (auto simp: is_dir_def path_exists_def)

lemma count_documents_fields:
  "document_count (count_documents fs files stats) = document_count stats + length files"
  "has_index_flag (count_documents fs files stats) = has_index_flag stats"
  "has_documents_flag (count_documents fs files stats) = has_documents_flag stats"
  "artifact_count (count_documents fs files stats) = artifact_count stats"
  by (induction files arbitrary: stats; simp add: Let_def split: sum.splits)+

text \<open>
  Claim C9. The record returned by \<^verbatim>\<open>get_index_stats\<close> is consistent: the documents
  flag holds exactly when the document count is positive, and the index flag holds
  exactly when the artifact count is positive. The flags and the counts come from
  separate listings of the directories; the directory helpers called in between create
  no entry inside them.
\<close>

theorem get_index_stats_consistent:
  assumes "get_index_stats w fs i = Inr (stats, fs')"
  shows "(has_documents_flag stats \<longleftrightarrow> document_count stats > 0)
         \<and> (has_index_flag stats \<longleftrightarrow> artifact_count stats > 0)"
proof -
  let ?inp = "base_dir w @ [i, ''input'']"
  let ?out = "base_dir w @ [i, ''output'']"
  from assms obtain indexed fs1 where hi: "has_index w fs i = Inr (indexed, fs1)"
    by (auto simp: get_index_stats_def bind_error_def split: sum.splits)
  then obtain d1 where g1: "get_output_dir w fs i = Inr (d1, fs1)"
    and indexed: "indexed = (path_exists fs1 d1 \<and> length (glob_suffix fs1 d1 ''.parquet'') > 0)"
    by (auto simp: has_index_def bind_error_def split: sum.splits)
  have d1: "d1 = ?out" using get_output_dir_result(1)[OF g1] .
  have r1: "dirs_ready fs1 [] ?out" using get_output_dir_facts(2)[OF g1] .
  from assms hi obtain documented fs2 where hd: "has_documents w fs1 i = Inr (documented, fs2)"
    by (auto simp: get_index_stats_def bind_error_def split: sum.splits)
  then obtain d2 where g2: "get_input_dir w fs1 i = Inr (d2, fs2)"
    and documented: "documented = (length (glob_suffix fs2 d2 ''.txt'') > 0)"
    by (auto simp: has_documents_def bind_error_def split: sum.splits)
  have d2: "d2 = ?inp" using get_input_dir_result(1)[OF g2] .
  have r2: "dirs_ready fs2 [] ?inp" using get_input_dir_facts(2)[OF g2] .
  have r2o: "dirs_ready fs2 [] ?out"
    using r1 get_input_dir_facts(1)[OF g2] by (rule dirs_ready_extends)
  have g3: "get_input_dir w fs2 i = Inr (?inp, fs2)" using r2 by (rule get_input_dir_noop)
  have g4: "get_output_dir w fs2 i = Inr (?out, fs2)" using r2o by (rule get_output_dir_noop)
  have same: "dir_entries fs2 ?out ''.parquet'' = dir_entries fs1 ?out ''.parquet''"
    using get_input_dir_facts(3)[OF g2, of ?out] by simp
  have glob_out: "glob_suffix fs2 ?out ''.parquet'' = glob_suffix fs1 ?out ''.parquet''"
    using same dirs_ready_is_dir[OF r1] dirs_ready_is_dir[OF r2o] by (simp add: glob_suffix_def)
  have ex1: "path_exists fs1 ?out" using r1 by (rule dirs_ready_exists)
  have ex2: "path_exists fs2 ?out" using r2o by (rule dirs_ready_exists)
  let ?s0 = "\<lparr>has_index_flag = indexed, has_documents_flag = documented,
              document_count = 0, total_characters = 0, artifact_count = 0\<rparr>"
  let ?s1 = "count_documents fs2 (glob_suffix fs2 ?inp ''.txt'') ?s0"
  have "get_index_stats w fs i
          = Inr (?s1\<lparr>artifact_count := length (glob_suffix fs2 ?out ''.parquet'')\<rparr>, fs2)"
    using hi hd g3 g4 ex2 by (simp add: get_index_stats_def bind_error_def Let_def)
  then have stats: "stats = ?s1\<lparr>artifact_count := length (glob_suffix fs2 ?out ''.parquet'')\<rparr>"
    using assms by simp
  show ?thesis
    using ex1 by (simp add: stats count_documents_fields indexed documented d1 d2 glob_out)
qed

lemma stats_indexed:
  "get_index_stats world0 fs_indexed cid0
     = Inr (\<lparr>has_index_flag = True, has_documents_flag = True, document_count = 1,
             total_characters = 60, artifact_count = 2\<rparr>,
            fs_indexed)"
  by code_simp

theorem get_index_stats_consistent_witness:
  "(has_documents_flag \<lparr>has_index_flag = True, has_documents_flag = True, document_count = 1,
             total_characters = 60, artifact_count = 2\<rparr>
      \<longleftrightarrow> document_count \<lparr>has_index_flag = True, has_documents_flag = True, document_count = 1,
             total_characters = 60, artifact_count = 2\<rparr> > 0)
   \<and> (has_index_flag \<lparr>has_index_flag = True, has_documents_flag = True, document_count = 1,
             total_characters = 60, artifact_count = 2\<rparr>
      \<longleftrightarrow> artifact_count \<lparr>has_index_flag = True, has_documents_flag = True, document_count = 1,
             total_characters = 60, artifact_count = 2\<rparr> > 0)"
  using get_index_stats_consistent[OF stats_indexed] .

section \<open>Deleting a workspace\<close>


lemma delete_conversation_data_result:
  assumes "delete_conversation_data w fs i = Inr (ok, fs', log)"
  obtains fs1 where
    "get_conversation_dir w fs i = Inr (base_dir w @ [i], fs1)"
    "ok = (\<not> rmtree_fails w fs1 (base_dir w @ [i]))"
    "log \<noteq> []"
    "ok \<longrightarrow> fs' = rmtree fs1 (base_dir w @ [i])"
proof -
  from assms obtain d fs1 where g: "get_conversation_dir w fs i = Inr (d, fs1)"
    by (auto simp: delete_conversation_data_def bind_error_def split: sum.splits)
  have d: "d = base_dir w @ [i]" using get_conversation_dir_result(1)[OF g] .
  have "path_exists fs1 d"
    using get_conversation_dir_facts(2)[OF g] d by (simp add: dirs_ready_exists)
  then show ?thesis
    using that[of fs1] assms g d
    by (auto simp: delete_conversation_data_def bind_error_def split: if_splits)
qed

lemma rmtree_removes: "prefix p q \<Longrightarrow> map_of (rmtree fs p) q = None"
  by (induction fs) (auto simp: rmtree_def)

text \<open>
  Claim C2, on the code. The workspace of \<open>cid0\<close> exists in \<open>fs_saved\<close>. The first
  deletion returns true and removes the whole subtree. The second deletion, on the
  filesystem the first one left, returns true again: \<^verbatim>\<open>get_conversation_dir\<close> creates
  the workspace directory before its existence is tested, so the test never fails and
  the final \<^verbatim>\<open>return False\<close> is never reached.
\<close>

theorem delete_twice_reports_true_twice:
  "delete_conversation_data world0 fs_saved cid0
     = Inr (True, [([''app''], Dir), ([''app'', ''graphrag_data''], Dir)],
            [Print (DeletedConversation cid0)])
   \<and> delete_conversation_data world0 [([''app''], Dir), ([''app'', ''graphrag_data''], Dir)] cid0
     = Inr (True, [([''app''], Dir), ([''app'', ''graphrag_data''], Dir)],
            [Print (DeletedConversation cid0)])"
  by code_simp

lemma delete_second_call:
  assumes "\<And>fs p. \<not> rmtree_fails w fs p"
    and "delete_conversation_data w fs i = Inr (ok1, fs1, log1)"
    and "delete_conversation_data w fs1 i = Inr (ok2, fs2, log2)"
  shows "ok1 \<and> ok2 \<and> (\<forall>q. prefix (base_dir w @ [i]) q \<longrightarrow> map_of fs1 q = None)"
proof -
  from assms(2) obtain fsa where
    "ok1 = (\<not> rmtree_fails w fsa (base_dir w @ [i]))"
    "ok1 \<longrightarrow> fs1 = rmtree fsa (base_dir w @ [i])"
    by (rule delete_conversation_data_result)
  moreover from assms(3) obtain fsb where
    "ok2 = (\<not> rmtree_fails w fsb (base_dir w @ [i]))"
    by (rule delete_conversation_data_result)
  ultimately show ?thesis using assms(1) by (simp add: rmtree_removes)
qed

section \<open>Building the index\<close>


lemma build_index_prepared:
  assumes "build_index w fs i debug = Inr r"
  obtains fs4 where
    "index_documents w fs4 i debug (base_dir w @ [i]) (base_dir w @ [i, ''input'']) = Inr r"
    "extends fs fs4"
    "dirs_ready fs4 [] (base_dir w @ [i, ''input''])"
    "\<forall>ext. dir_entries fs4 (base_dir w @ [i, ''input'']) ext
             = dir_entries fs (base_dir w @ [i, ''input'']) ext"
proof -
  let ?inp = "base_dir w @ [i, ''input'']"
  from assms obtain d1 fs1 where g1: "get_conversation_dir w fs i = Inr (d1, fs1)"
    by (auto simp: build_index_def bind_error_def split: sum.splits)
  from assms g1 obtain d2 fs2 where g2: "get_input_dir w fs1 i = Inr (d2, fs2)"
    by (auto simp: build_index_def bind_error_def split: sum.splits)
  from assms g1 g2 obtain d3 fs3 where g3: "get_output_dir w fs2 i = Inr (d3, fs3)"
    by (auto simp: build_index_def bind_error_def split: sum.splits)
  from assms g1 g2 g3 obtain d4 fs4 where g4: "get_cache_dir w fs3 i = Inr (d4, fs4)"
    by (auto simp: build_index_def bind_error_def split: sum.splits)
  have d1: "d1 = base_dir w @ [i]" using get_conversation_dir_result(1)[OF g1] .
  have d2: "d2 = ?inp" using get_input_dir_result(1)[OF g2] .
  have run: "index_documents w fs4 i debug (base_dir w @ [i]) ?inp = Inr r"
    using assms g1 g2 g3 g4 d1 d2 by (simp add: build_index_def bind_error_def)
  have e34: "extends fs2 fs4"
    using get_output_dir_facts(1)[OF g3] get_cache_dir_facts(1)[OF g4] by (rule extends_trans)
  have ext: "extends fs fs4"
    using extends_trans[OF get_conversation_dir_facts(1)[OF g1]
            extends_trans[OF get_input_dir_facts(1)[OF g2] e34]] .
  have rdy: "dirs_ready fs4 [] ?inp"
    using get_input_dir_facts(2)[OF g2] e34 by (rule dirs_ready_extends)
  have ents: "dir_entries fs4 ?inp ext = dir_entries fs ?inp ext" for ext
    using get_conversation_dir_facts(3)[OF g1, of ?inp ext]
      get_input_dir_facts(3)[OF g2, of ?inp ext]
      get_output_dir_facts(3)[OF g3, of ?inp ext]
      get_cache_dir_facts(3)[OF g4, of ?inp ext]
    by simp
  show ?thesis using that[OF run ext rdy] ents by blast
qed

lemma glob_ready: "dirs_ready fs [] d \<Longrightarrow> glob_suffix fs d ext = dir_entries fs d ext"
  by (simp add: glob_suffix_def dirs_ready_is_dir)

lemma dir_entries_listed: "f \<in> set (dir_entries fs d ext) \<Longrightarrow> map_of fs f \<noteq> None"
  by (auto simp: dir_entries_def map_of_eq_None_iff image_iff)

lemma read_text_extends:
  "extends fs fs' \<Longrightarrow> map_of fs f \<noteq> None \<Longrightarrow> read_text fs' f = read_text fs f"
  by (auto simp: extends_def read_text_def)

lemma total_chars_extends:
  "extends fs fs' \<Longrightarrow> \<forall>f \<in> set files. map_of fs f \<noteq> None \<Longrightarrow>
   total_chars fs' files = total_chars fs files"
  by (induction files) (simp_all add: read_text_extends split: sum.splits)

lemma validate_files_total:
  "total_chars fs files = Some n \<Longrightarrow>
   \<exists>log'. validate_files fs files acc log = (True, acc + n, log @ log')
           \<and> \<not> list_ex is_spawn log'"
proof (induction files arbitrary: acc log n)
  case Nil
  then show ?case by simp
next
  case (Cons f files)
  from Cons.prems obtain c m where c: "read_text fs f = Inr c"
    and m: "total_chars fs files = Some m" and n: "n = length c + m"
    by (auto split: sum.splits)
  from Cons.IH[OF m, of "acc + length c" "log @ [Print (FileCharacters (name_of f) (length c))]"]
  obtain log' where
    "validate_files fs files (acc + length c)
       (log @ [Print (FileCharacters (name_of f) (length c))])
     = (True, acc + length c + m, (log @ [Print (FileCharacters (name_of f) (length c))]) @ log')"
    "\<not> list_ex is_spawn log'"
    by blast
  then have "validate_files fs (f # files) acc log
       = (True, acc + n, log @ (Print (FileCharacters (name_of f) (length c)) # log'))
     \<and> \<not> list_ex is_spawn (Print (FileCharacters (name_of f) (length c)) # log')"
    using c n by (simp add: add.assoc)
  then show ?case by blast
qed

lemma run_index_spawns:
  "run_index w fs i debug conv = (ok, fs', log) \<Longrightarrow>
   Spawn (index_argv conv) (process_env w) \<in> set log"
  by (auto simp: run_index_def Let_def split: prod.splits proc_result.splits if_splits sum.splits)


lemma build_index_reaches_validation:
  assumes "workspace_creatable w fs i"
  shows "\<exists>fs4. build_index w fs i debug
             = index_documents w fs4 i debug (base_dir w @ [i]) (base_dir w @ [i, ''input''])
           \<and> glob_suffix fs4 (base_dir w @ [i, ''input'']) ''.txt''
               = dir_entries fs (base_dir w @ [i, ''input'']) ''.txt''"
proof -
  let ?inp = "base_dir w @ [i, ''input'']"
  from assms have c: "creatable fs [] (base_dir w @ [i, ''input''])"
    "creatable fs [] (base_dir w @ [i, ''output''])"
    "creatable fs [] (base_dir w @ [i, ''cache''])"
    by (simp_all add: workspace_creatable_def)
  from get_conversation_dir_creatable[OF c(1)] obtain fs1 where
    g1: "get_conversation_dir w fs i = Inr (base_dir w @ [i], fs1)" and a1: "adds_dirs fs fs1"
    by blast
  from get_input_dir_creatable[OF creatable_adds[OF a1 c(1)]] obtain fs2 where
    g2: "get_input_dir w fs1 i = Inr (base_dir w @ [i, ''input''], fs2)"
    and a2: "adds_dirs fs1 fs2"
    by blast
  have a02: "adds_dirs fs fs2" using a1 a2 by (rule adds_dirs_trans)
  from get_output_dir_creatable[OF creatable_adds[OF a02 c(2)]] obtain fs3 where
    g3: "get_output_dir w fs2 i = Inr (base_dir w @ [i, ''output''], fs3)"
    and a3: "adds_dirs fs2 fs3"
    by blast
  have a03: "adds_dirs fs fs3" using a02 a3 by (rule adds_dirs_trans)
  from get_cache_dir_creatable[OF creatable_adds[OF a03 c(3)]] obtain fs4 where
    g4: "get_cache_dir w fs3 i = Inr (base_dir w @ [i, ''cache''], fs4)"
    by blast
  have run: "build_index w fs i debug
               = index_documents w fs4 i debug (base_dir w @ [i]) ?inp"
    using g1 g2 g3 g4 by (simp add: build_index_def bind_error_def)
  have "extends fs2 fs4"
    using get_output_dir_facts(1)[OF g3] get_cache_dir_facts(1)[OF g4] by (rule extends_trans)
  with get_input_dir_facts(2)[OF g2] have "dirs_ready fs4 [] ?inp"
    by (rule dirs_ready_extends)
  then have "glob_suffix fs4 ?inp ''.txt'' = dir_entries fs4 ?inp ''.txt''"
    by (rule glob_ready)
  also have "\<dots> = dir_entries fs ?inp ''.txt''"
    using get_conversation_dir_facts(3)[OF g1, of ?inp "''.txt''"]
      get_input_dir_facts(3)[OF g2, of ?inp "''.txt''"]
      get_output_dir_facts(3)[OF g3, of ?inp "''.txt''"]
      get_cache_dir_facts(3)[OF g4, of ?inp "''.txt''"]
    by simp
  finally show ?thesis using run by blast
qed

text \<open>
  Claim C3. When the input directory of the conversation holds no entry whose name ends
  in \<^verbatim>\<open>.txt\<close>, a \<^verbatim>\<open>build_index\<close> that returns has returned false, has printed that
  there are no documents and nothing else, and has spawned no process; and it does
  return so whenever the directories of the workspace are there or can be made.
\<close>

theorem build_index_no_documents:
  assumes "dir_entries fs (base_dir w @ [i, ''input'']) ''.txt'' = []"
  shows "(\<forall>ok fs' log. build_index w fs i debug = Inr (ok, fs', log)
            \<longrightarrow> \<not> ok \<and> log = [Print NoDocuments] \<and> \<not> list_ex is_spawn log)
         \<and> (workspace_creatable w fs i
            \<longrightarrow> (\<exists>fs'. build_index w fs i debug = Inr (False, fs', [Print NoDocuments])))"
proof (intro conjI allI impI)
  fix ok fs' log
  assume "build_index w fs i debug = Inr (ok, fs', log)"
  then obtain fs4 where
    run: "index_documents w fs4 i debug (base_dir w @ [i]) (base_dir w @ [i, ''input''])
            = Inr (ok, fs', log)" and
    "extends fs fs4" and
    rdy: "dirs_ready fs4 [] (base_dir w @ [i, ''input''])" and
    ents: "\<forall>ext. dir_entries fs4 (base_dir w @ [i, ''input'']) ext
             = dir_entries fs (base_dir w @ [i, ''input'']) ext"
    by (rule build_index_prepared)
  have "glob_suffix fs4 (base_dir w @ [i, ''input'']) ''.txt'' = []"
    using glob_ready[OF rdy] ents assms(1) by simp
  then have r: "\<not> ok \<and> log = [Print NoDocuments] \<and> \<not> list_ex is_spawn log"
    using run by (auto simp: index_documents_def)
  from r show "\<not> ok" by simp
  from r show "log = [Print NoDocuments]" by simp
  from r show "\<not> list_ex is_spawn log" by simp
next
  assume "workspace_creatable w fs i"
  from build_index_reaches_validation[OF this, of debug] obtain fs4 where
    "build_index w fs i debug
       = index_documents w fs4 i debug (base_dir w @ [i]) (base_dir w @ [i, ''input''])"
    "glob_suffix fs4 (base_dir w @ [i, ''input'']) ''.txt'' = []"
    using assms by auto
  then have "build_index w fs i debug = Inr (False, fs4, [Print NoDocuments])"
    by (simp add: index_documents_def)
  then show "\<exists>fs'. build_index w fs i debug = Inr (False, fs', [Print NoDocuments])" ..
qed

theorem build_index_no_documents_witness:
  "dir_entries [] (base_dir world0 @ [cid0, ''input'']) ''.txt'' = []
   \<and> workspace_creatable world0 [] cid0
   \<and> (\<exists>fs'. build_index world0 [] cid0 False = Inr (False, fs', [Print NoDocuments]))
   \<and> \<not> list_ex is_spawn [Print NoDocuments]"
proof -
  have h: "dir_entries [] (base_dir world0 @ [cid0, ''input'']) ''.txt'' = []"
    by (simp add: dir_entries_def)
  have c: "workspace_creatable world0 [] cid0" by code_simp
  note t = build_index_no_documents[OF h, of False]
  from t c have r: "\<exists>fs'. build_index world0 [] cid0 False = Inr (False, fs', [Print NoDocuments])"
    by blast
  with t have "\<not> list_ex is_spawn [Print NoDocuments]" by blast
  with h c r show ?thesis by blast
qed

lemma total_chars_readable:
  "total_chars fs files \<noteq> None \<longleftrightarrow> (\<forall>f \<in> set files. \<exists>c. read_text fs f = Inr c)"
  by (induction files) (auto split: sum.splits)

lemma debug_input_files_ready:
  assumes "dirs_ready fs [] (base_dir w @ [i, ''input''])"
  shows "\<exists>dumped. debug_input_files w fs i = Inr (fs, dumped)"
  using get_input_dir_noop[OF assms]
  by (simp add: debug_input_files_def bind_error_def Let_def)

lemma index_documents_returns:
  assumes "dirs_ready fs [] (base_dir w @ [i, ''input''])"
    and "map_of fs (base_dir w @ [i, ''settings.yaml'']) \<noteq> Some Dir"
  shows "\<exists>r. index_documents w fs i debug (base_dir w @ [i]) (base_dir w @ [i, ''input''])
               = Inr r"
proof -
  let ?conv = "base_dir w @ [i]"
  let ?set = "base_dir w @ [i, ''settings.yaml'']"
  have "\<exists>d. (if debug then debug_input_files w fs i else Inr (fs, [])) = Inr (fs, d)"
    using debug_input_files_ready[OF assms(1)] by (cases debug) auto
  then obtain dumped where
    dbg: "(if debug then debug_input_files w fs i else Inr (fs, [])) = Inr (fs, dumped)" ..
  have j: "joinpath ?conv ''settings.yaml'' = ?set"
    using joinpath_plain[of "''settings.yaml''" ?conv] by simp
  have "dirs_ready fs [] ?conv" using assms(1) by (rule dirs_ready_conv)
  from write_text_returns[OF this, of "''settings.yaml''" "create_settings_yaml w i"]
  have wr: "write_text fs ?set (create_settings_yaml w i)
              = Inr (AList.update ?set (File (create_settings_yaml w i)) fs)"
    using assms(2) by simp
  obtain readable total log1 where
    v: "validate_files fs (glob_suffix fs (base_dir w @ [i, ''input'']) ''.txt'') 0
          [Print (Validating (length (glob_suffix fs (base_dir w @ [i, ''input'']) ''.txt'')))]
        = (readable, total, log1)"
    using prod_cases3 by blast
  obtain ok fs7 log5 where
    ri: "run_index w (AList.update ?set (File (create_settings_yaml w i)) fs) i debug ?conv
         = (ok, fs7, log5)"
    using prod_cases3 by blast
  show ?thesis
    by (auto simp: index_documents_def Let_def dbg j wr v ri bind_error_def)
qed

lemma build_index_returns:
  assumes "workspace_creatable w fs i"
    and "map_of fs (base_dir w @ [i, ''settings.yaml'']) \<noteq> Some Dir"
  shows "\<exists>r. build_index w fs i debug = Inr r"
proof -
  let ?inp = "base_dir w @ [i, ''input'']"
  let ?set = "base_dir w @ [i, ''settings.yaml'']"
  from assms(1) have c: "creatable fs [] ?inp"
    "creatable fs [] (base_dir w @ [i, ''output''])"
    "creatable fs [] (base_dir w @ [i, ''cache''])"
    by (simp_all add: workspace_creatable_def)
  from get_conversation_dir_creatable[OF c(1)] obtain fs1 where
    g1: "get_conversation_dir w fs i = Inr (base_dir w @ [i], fs1)" and a1: "adds_dirs fs fs1"
    by blast
  from get_input_dir_creatable[OF creatable_adds[OF a1 c(1)]] obtain fs2 where
    g2: "get_input_dir w fs1 i = Inr (?inp, fs2)" and a2: "adds_dirs fs1 fs2"
    by blast
  have a02: "adds_dirs fs fs2" using a1 a2 by (rule adds_dirs_trans)
  from get_output_dir_creatable[OF creatable_adds[OF a02 c(2)]] obtain fs3 where
    g3: "get_output_dir w fs2 i = Inr (base_dir w @ [i, ''output''], fs3)"
    and a3: "adds_dirs fs2 fs3"
    by blast
  have a03: "adds_dirs fs fs3" using a02 a3 by (rule adds_dirs_trans)
  from get_cache_dir_creatable[OF creatable_adds[OF a03 c(3)]] obtain fs4 where
    g4: "get_cache_dir w fs3 i = Inr (base_dir w @ [i, ''cache''], fs4)"
    by blast
  have run: "build_index w fs i debug = index_documents w fs4 i debug (base_dir w @ [i]) ?inp"
    using g1 g2 g3 g4 by (simp add: build_index_def bind_error_def)
  have "extends fs2 fs4"
    using get_output_dir_facts(1)[OF g3] get_cache_dir_facts(1)[OF g4] by (rule extends_trans)
  with get_input_dir_facts(2)[OF g2] have rdy: "dirs_ready fs4 [] ?inp"
    by (rule dirs_ready_extends)
  have "map_of fs1 ?set = map_of fs ?set"
    using g1 by (rule get_conversation_dir_elsewhere) (simp add: prefix_def)
  moreover have "map_of fs2 ?set = map_of fs1 ?set"
    using g2 by (rule get_input_dir_elsewhere) (simp add: prefix_def)
  moreover have "map_of fs3 ?set = map_of fs2 ?set"
    using g3 by (rule get_output_dir_elsewhere) (simp add: prefix_def)
  moreover have "map_of fs4 ?set = map_of fs3 ?set"
    using g4 by (rule get_cache_dir_elsewhere) (simp add: prefix_def)
  ultimately have "map_of fs4 ?set \<noteq> Some Dir" using assms(2) by simp
  from index_documents_returns[OF rdy this, of debug] show ?thesis using run by simp
qed

text \<open>
  Claim C4, amended. The input directory holds at least one text file and every text
  file in it can be read: then, and only then, there is a total character count across
  all input files. A \<^verbatim>\<open>build_index\<close> that returns with a total below 50 has returned
  false and spawned no process. With a total of at least 50 and below 200 it has
  printed the low-volume warning and gone on to the next steps: without a credential it
  has reported the missing key and returned false, with a credential it has spawned the
  binary. And \<^verbatim>\<open>build_index\<close> does return whenever the directories of the workspace
  are there or can be made and no directory has the name of the settings file.
\<close>

theorem build_index_volume:
  assumes "files = dir_entries fs (base_dir w @ [i, ''input'']) ''.txt''"
    and "files \<noteq> []"
    and "total_chars fs files = Some t"
  shows "(\<forall>ok fs' log. build_index w fs i debug = Inr (ok, fs', log) \<longrightarrow>
            (t < 50 \<longrightarrow> \<not> ok \<and> \<not> list_ex is_spawn log)
            \<and> (50 \<le> t \<and> t < 200 \<longrightarrow>
                 Print LowVolumeWarning \<in> set log
                 \<and> (openai_api_key (config w) = []
                      \<longrightarrow> \<not> ok \<and> Print ApiKeyNotSet \<in> set log)
                 \<and> (openai_api_key (config w) \<noteq> [] \<longrightarrow>
                      Spawn (index_argv (base_dir w @ [i])) (process_env w) \<in> set log)))
         \<and> (workspace_creatable w fs i
              \<and> map_of fs (base_dir w @ [i, ''settings.yaml'']) \<noteq> Some Dir
            \<longrightarrow> (\<exists>ok fs' log. build_index w fs i debug = Inr (ok, fs', log)))"
proof (intro conjI allI impI)
  assume "workspace_creatable w fs i
            \<and> map_of fs (base_dir w @ [i, ''settings.yaml'']) \<noteq> Some Dir"
  then obtain r where "build_index w fs i debug = Inr r"
    using build_index_returns by blast
  then show "\<exists>ok fs' log. build_index w fs i debug = Inr (ok, fs', log)"
    by (cases r) auto
next
  fix ok fs' log
  assume built: "build_index w fs i debug = Inr (ok, fs', log)"
  let ?conv = "base_dir w @ [i]"
  let ?inp = "base_dir w @ [i, ''input'']"
  from built obtain fs4 where
    run: "index_documents w fs4 i debug ?conv ?inp = Inr (ok, fs', log)" and
    ext: "extends fs fs4" and
    rdy: "dirs_ready fs4 [] ?inp" and
    ents: "\<forall>ext. dir_entries fs4 ?inp ext = dir_entries fs ?inp ext"
    by (rule build_index_prepared)
  have glob: "glob_suffix fs4 ?inp ''.txt'' = files"
    using glob_ready[OF rdy] ents assms(1) by simp
  have ne: "files \<noteq> []" using assms(2) .
  have "\<forall>f \<in> set files. map_of fs f \<noteq> None"
    using dir_entries_listed assms(1) by blast
  then have "total_chars fs4 files = Some t"
    using total_chars_extends[OF ext] assms(3) by simp
  from validate_files_total[OF this, of 0 "[Print (Validating (length files))]"]
  obtain log1 where
    val: "validate_files fs4 files 0 [Print (Validating (length files))]
            = (True, t, [Print (Validating (length files))] @ log1)" and
    quiet: "\<not> list_ex is_spawn log1"
    by auto
  have low: "\<not> ok \<and> \<not> list_ex is_spawn log" if "t < 50"
    using run glob ne val quiet that by (auto simp: index_documents_def)
  have mid: "Print LowVolumeWarning \<in> set log
              \<and> (openai_api_key (config w) = [] \<longrightarrow> \<not> ok \<and> Print ApiKeyNotSet \<in> set log)
              \<and> (openai_api_key (config w) \<noteq> [] \<longrightarrow>
                   Spawn (index_argv ?conv) (process_env w) \<in> set log)"
    if t: "50 \<le> t" "t < 200"
    using run glob ne val t run_index_spawns[of w _ i debug ?conv]
    by (auto simp: index_documents_def bind_error_def Let_def
             split: sum.splits prod.splits if_splits)
  show "t < 50 \<Longrightarrow> \<not> ok" using low by simp
  show "t < 50 \<Longrightarrow> \<not> list_ex is_spawn log" using low by simp
  show "50 \<le> t \<and> t < 200 \<Longrightarrow> Print LowVolumeWarning \<in> set log" using mid by simp
  show "50 \<le> t \<and> t < 200 \<Longrightarrow> openai_api_key (config w) = [] \<Longrightarrow> \<not> ok"
    using mid by simp
  show "50 \<le> t \<and> t < 200 \<Longrightarrow> openai_api_key (config w) = []
          \<Longrightarrow> Print ApiKeyNotSet \<in> set log"
    using mid by simp
  show "50 \<le> t \<and> t < 200 \<Longrightarrow> openai_api_key (config w) \<noteq> []
          \<Longrightarrow> Spawn (index_argv ?conv) (process_env w) \<in> set log"
    using mid by simp
qed

lemma build_note40:
  "build_index world0 (fs_note note40) cid0 False
     = Inr (False,
            fs_note note40 @ [(workspace0 @ [''output''], Dir), (workspace0 @ [''cache''], Dir)],
            [Print (Validating 1), Print (FileCharacters ''note.txt'' 40),
             Print (TotalCharacters 40 1), Print InsufficientContent])"
  by code_simp

theorem build_index_volume_witness:
  "[workspace0 @ [''input'', ''note.txt'']]
     = dir_entries (fs_note note40) (base_dir world0 @ [cid0, ''input'']) ''.txt''
   \<and> total_chars (fs_note note40) [workspace0 @ [''input'', ''note.txt'']] = Some 40
   \<and> build_index world0 (fs_note note40) cid0 False
       = Inr (False,
              fs_note note40 @ [(workspace0 @ [''output''], Dir), (workspace0 @ [''cache''], Dir)],
              [Print (Validating 1), Print (FileCharacters ''note.txt'' 40),
               Print (TotalCharacters 40 1), Print InsufficientContent])
   \<and> \<not> list_ex is_spawn
         [Print (Validating 1), Print (FileCharacters ''note.txt'' 40),
          Print (TotalCharacters 40 1), Print InsufficientContent]
   \<and> [workspace0 @ [''input'', ''note.txt'']]
       = dir_entries (fs_note note60) (base_dir world0 @ [cid0, ''input'']) ''.txt''
   \<and> total_chars (fs_note note60) [workspace0 @ [''input'', ''note.txt'']] = Some 60
   \<and> openai_api_key (config world0) \<noteq> []
   \<and> workspace_creatable world0 (fs_note note60) cid0
   \<and> map_of (fs_note note60) (base_dir world0 @ [cid0, ''settings.yaml'']) \<noteq> Some Dir
   \<and> (\<exists>ok fs' log.
         build_index world0 (fs_note note60) cid0 False = Inr (ok, fs', log)
         \<and> Print LowVolumeWarning \<in> set log
         \<and> Spawn (index_argv (base_dir world0 @ [cid0])) (process_env world0) \<in> set log)"
proof -
  let ?f = "workspace0 @ [''input'', ''note.txt'']"
  have files: "[?f] = dir_entries (fs_note c) (base_dir world0 @ [cid0, ''input'']) ''.txt''" for c
    by code_simp
  have ne: "[?f] \<noteq> []" by simp
  have t40: "total_chars (fs_note note40) [?f] = Some 40"
    and t60: "total_chars (fs_note note60) [?f] = Some 60"
    by code_simp+
  have key: "openai_api_key (config world0) \<noteq> []" by code_simp
  have r: "workspace_creatable world0 (fs_note note60) cid0
             \<and> map_of (fs_note note60) (base_dir world0 @ [cid0, ''settings.yaml'']) \<noteq> Some Dir"
    by code_simp
  have low: "(40::nat) < 50" and mid: "(50::nat) \<le> 60 \<and> (60::nat) < 200" by simp_all
  note small = build_index_volume[OF files ne t40, of False, THEN conjunct1, rule_format,
                 OF build_note40, THEN conjunct1, rule_format, OF low]
  note large = build_index_volume[OF files ne t60, of False]
  from large r obtain ok fs' log where
    b: "build_index world0 (fs_note note60) cid0 False = Inr (ok, fs', log)"
    by blast
  note reached = large[THEN conjunct1, rule_format, OF b, THEN conjunct2, rule_format, OF mid]
  from reached have warned: "Print LowVolumeWarning \<in> set log" by (rule conjunct1)
  from reached have "openai_api_key (config world0) \<noteq> [] \<longrightarrow>
      Spawn (index_argv (base_dir world0 @ [cid0])) (process_env world0) \<in> set log"
    by (rule conjunct2[OF conjunct2])
  from this[rule_format, OF key] warned b have
    "\<exists>ok fs' log.
         build_index world0 (fs_note note60) cid0 False = Inr (ok, fs', log)
         \<and> Print LowVolumeWarning \<in> set log
         \<and> Spawn (index_argv (base_dir world0 @ [cid0])) (process_env world0) \<in> set log"
    by blast
  with small[THEN conjunct2] build_note40 files[of note40] files[of note60] t40 t60 key r
  show ?thesis by blast
qed

text \<open>
  Claim C4 as stated, for a directory with at least one readable input file, fails on a
  directory that holds a file that cannot be read as well. In \<open>fs_mixed\<close> the file
  \<^verbatim>\<open>note.txt\<close> is read, its 60 characters are the total the statistics report, and
  \<^verbatim>\<open>zbad.txt\<close> does not decode: \<^verbatim>\<open>build_index\<close> reports the read error and returns
  false, without the low-volume warning and without going on.
\<close>

theorem build_index_unreadable_counterexample:
  "read_text fs_mixed (workspace0 @ [''input'', ''note.txt'']) = Inr note60
   \<and> length note60 = 60
   \<and> get_index_stats world0 fs_mixed cid0
       = Inr (\<lparr>has_index_flag = False, has_documents_flag = True, document_count = 2,
               total_characters = 60, artifact_count = 0\<rparr>,
              fs_mixed @ [(workspace0 @ [''output''], Dir)])
   \<and> build_index world0 fs_mixed cid0 False
       = Inr (False,
              fs_mixed @ [(workspace0 @ [''output''], Dir), (workspace0 @ [''cache''], Dir)],
              [Print (Validating 2), Print (FileCharacters ''note.txt'' 60),
               Print (ErrorReadingFile ''zbad.txt'')])
   \<and> Print LowVolumeWarning
       \<notin> set [Print (Validating 2), Print (FileCharacters ''note.txt'' 60),
               Print (ErrorReadingFile ''zbad.txt'')]"
  by code_simp

section \<open>Querying\<close>


lemma query_prepared:
  assumes "get_conversation_dir w fs i = Inr (d1, fs1)"
    and "get_output_dir w fs1 i = Inr (d2, fs2)"
  shows "path_exists fs2 d2"
  using get_output_dir_result(1)[OF assms(2)] get_output_dir_facts(2)[OF assms(2)]
  by (simp add: dirs_ready_exists)

lemma query_never_without_index:
  assumes "query w fs i q method debug = Inr (answer, fs', log)"
  shows "Print NoIndexFound \<notin> set log"
proof -
  from assms obtain d1 fs1 where g1: "get_conversation_dir w fs i = Inr (d1, fs1)"
    by (auto simp: query_def bind_error_def split: sum.splits)
  from assms g1 obtain d2 fs2 where g2: "get_output_dir w fs1 i = Inr (d2, fs2)"
    by (auto simp: query_def bind_error_def split: sum.splits)
  have ex: "path_exists fs2 d2" using g1 g2 by (rule query_prepared)
  show ?thesis
    using assms g1 g2 ex
    by (auto simp: query_def bind_error_def Let_def run_query_def
             split: prod.splits proc_result.splits if_splits)
qed

text \<open>
  Claim C1, on the code. On an empty disk the output directory of \<open>cid0\<close> does not
  exist. The query does not return none: \<^verbatim>\<open>get_output_dir\<close> creates the directory
  before its existence is tested, the test passes, the binary is spawned and its answer
  is returned.
\<close>

theorem query_without_output_dir_spawns:
  "\<not> path_exists [] (workspace0 @ [''output''])
   \<and> query world0 [] cid0 ''What is the lease term?'' ''local'' False
     = Inr (Some ''The lease term is five years.'',
            [([''app''], Dir), ([''app'', ''graphrag_data''], Dir), (workspace0, Dir),
             (workspace0 @ [''output''], Dir)],
            [Print (Querying ''local'' ''What is the lease term?''),
             Spawn (query_argv workspace0 ''local'' ''What is the lease term?'')
               (process_env world0),
             Print QueryCompleted])"
  by code_simp

text \<open>
  Claim C8. A method other than \<^verbatim>\<open>local\<close> and \<^verbatim>\<open>global\<close> is not rejected: the query
  does what the same query with method \<^verbatim>\<open>local\<close> does (the same exception, or the same
  answer, filesystem, spawned process and printed lines), with the warning about the
  invalid method printed first.
\<close>

theorem query_invalid_method:
  assumes "method \<notin> {''local'', ''global''}"
  shows "query w fs i q method debug
         = (case query w fs i q ''local'' debug of
              Inl e \<Rightarrow> Inl e
            | Inr (answer, fs', log) \<Rightarrow> Inr (answer, fs', Print (InvalidMethod method) # log))"
proof (cases "get_conversation_dir w fs i")
  case (Inl e)
  then show ?thesis by (simp add: query_def bind_error_def)
next
  case (Inr r1)
  obtain d1 fs1 where r1: "r1 = (d1, fs1)" by (cases r1)
  show ?thesis
  proof (cases "get_output_dir w fs1 i")
    case (Inl e)
    then show ?thesis using Inr r1 by (simp add: query_def bind_error_def)
  next
    case r2: (Inr r2)
    obtain d2 fs2 where r2': "r2 = (d2, fs2)" by (cases r2)
    have ex: "path_exists fs2 d2"
      using Inr r1 r2 r2' by (intro query_prepared[of w fs i d1 fs1 d2 fs2]) simp_all
    show ?thesis
      using assms Inr r1 r2 r2' ex
      by (simp add: query_def bind_error_def Let_def split: prod.splits)
  qed
qed

theorem query_invalid_method_witness:
  "''fast'' \<notin> {''local'', ''global''}
   \<and> query world0 [] cid0 ''What is the lease term?'' ''fast'' False
     = Inr (Some ''The lease term is five years.'',
            [([''app''], Dir), ([''app'', ''graphrag_data''], Dir), (workspace0, Dir),
             (workspace0 @ [''output''], Dir)],
            [Print (InvalidMethod ''fast''),
             Print (Querying ''local'' ''What is the lease term?''),
             Spawn (query_argv workspace0 ''local'' ''What is the lease term?'')
               (process_env world0),
             Print QueryCompleted])"
proof -
  have h: "''fast'' \<notin> {''local'', ''global''}" by simp
  have l: "query world0 [] cid0 ''What is the lease term?'' ''local'' False
     = Inr (Some ''The lease term is five years.'',
            [([''app''], Dir), ([''app'', ''graphrag_data''], Dir), (workspace0, Dir),
             (workspace0 @ [''output''], Dir)],
            [Print (Querying ''local'' ''What is the lease term?''),
             Spawn (query_argv workspace0 ''local'' ''What is the lease term?'')
               (process_env world0),
             Print QueryCompleted])"
    by code_simp
  from query_invalid_method[OF h, of world0 "[]" cid0 "''What is the lease term?''" False] h
  show ?thesis by (simp only: l sum.case prod.case simp_thms)
qed

section \<open>Fallback search\<close>


lemma sort_reverse_mset: "mset (sort_reverse f xs) = mset xs"
  by (simp add: sort_reverse_def)

lemma sort_reverse_stable:
  "filter (\<lambda>y. f y = k) (sort_reverse f xs) = filter (\<lambda>y. f y = k) xs"
proof -
  have "filter (\<lambda>y. f y = k) (sort_reverse f xs)
          = rev (filter (\<lambda>y. f y = k) (sort_key f (rev xs)))"
    by (simp add: sort_reverse_def rev_filter)
  also have "\<dots> = rev (filter (\<lambda>y. f y = k) (rev xs))"
    by (simp only: sort_key_stable)
  also have "\<dots> = filter (\<lambda>y. f y = k) xs"
    by (simp add: rev_filter)
  finally show ?thesis .
qed

lemma sort_reverse_descending: "sorted_wrt (\<lambda>a b. f b \<le> f a) (sort_reverse f xs)"
proof -
  have "sorted (map f (sort_key f (rev xs)))" by (rule sorted_sort_key)
  then have "sorted_wrt (\<lambda>x y. f x \<le> f y) (sort_key f (rev xs))"
    by (simp only: sorted_map)
  then show ?thesis by (simp add: sort_reverse_def sorted_wrt_rev)
qed

lemma sort_reverse_by_score:
  "sort_reverse fst (hits :: hit list) = sort_key (\<lambda>h. - int (fst h)) hits"
proof (rule properties_for_sort_key[symmetric])
  show "mset (sort_reverse fst hits) = mset hits" by (rule sort_reverse_mset)
next
  fix k :: hit
  have "filter (\<lambda>x. - int (fst k) = - int (fst x)) ys = filter (\<lambda>y. fst y = fst k) ys"
    for ys :: "hit list"
    by (rule filter_cong) auto
  then show "filter (\<lambda>x. - int (fst k) = - int (fst x)) (sort_reverse fst hits)
               = filter (\<lambda>x. - int (fst k) = - int (fst x)) hits"
    by (simp only: sort_reverse_stable)
next
  have "sorted_wrt (\<lambda>a b. fst b \<le> fst a) (sort_reverse fst hits)"
    by (rule sort_reverse_descending)
  then have "sorted_wrt (\<lambda>a b. - int (fst a) \<le> - int (fst b)) (sort_reverse fst hits)"
    by (rule sorted_wrt_mono_rel[rotated]) simp
  then show "sorted (map (\<lambda>h. - int (fst h)) (sort_reverse fst hits))"
    by (simp only: sorted_map)
qed

lemma spec_ranking:
  fixes hits :: "hit list"
  shows "mset (sort_key (\<lambda>h. - int (fst h)) hits) = mset hits"
    and "sorted_wrt (\<lambda>a b. fst b \<le> fst a) (sort_key (\<lambda>h. - int (fst h)) hits)"
    and "filter (\<lambda>h. fst h = k) (sort_key (\<lambda>h. - int (fst h)) hits)
           = filter (\<lambda>h. fst h = k) hits"
  using sort_reverse_mset[of fst hits] sort_reverse_descending[of fst hits]
    sort_reverse_stable[of fst k hits]
  by (simp_all only: sort_reverse_by_score)

lemma scan_paragraphs_hits:
  "scan_paragraphs (set (split_ws (lower q))) name ps relevant
     = relevant @ map (\<lambda>p. (overlap_score q p, take 800 p, name))
                    (filter (\<lambda>p. length p \<ge> 50 \<and> overlap_score q p > 0) (map strip ps))"
  by (induction ps arbitrary: relevant) (auto simp: Let_def overlap_score_def)

lemma scan_files_hits:
  "fst (scan_files fs (set (split_ws (lower q))) files relevant log)
     = relevant @ concat (map (\<lambda>(name, content). file_hits q name content)
                            (readable_documents fs files))"
proof (induction files arbitrary: relevant log)
  case Nil
  then show ?case by (simp add: readable_documents_def)
next
  case (Cons f files)
  show ?case
  proof (cases "read_text fs f")
    case (Inl e)
    then show ?thesis using Cons.IH by (simp add: readable_documents_def)
  next
    case (Inr content)
    then show ?thesis
      using Cons.IH by (simp add: readable_documents_def scan_paragraphs_hits file_hits_def)
  qed
qed

lemma readable_documents_extends:
  "extends fs fs' \<Longrightarrow> \<forall>f \<in> set files. map_of fs f \<noteq> None \<Longrightarrow>
   readable_documents fs' files = readable_documents fs files"
  by (induction files) (simp_all add: readable_documents_def read_text_extends)

lemma slice_to_nonneg: "0 \<le> n \<Longrightarrow> slice_to xs n = take (nat n) xs"
  by (simp add: slice_to_def)

text \<open>
  Claim C5, amended. For a \<open>max_results\<close> that is not negative, the fallback search
  returns what the specification describes, on the readable text files of the input
  directory in the order of the listing.
\<close>

theorem simple_search_ranks:
  assumes "0 \<le> max_results"
    and "simple_search w fs i q max_results = Inr (result, fs', log)"
  shows "result = spec_search (readable_documents fs
                                (dir_entries fs (base_dir w @ [i, ''input'']) ''.txt''))
                    q max_results"
proof -
  let ?inp = "base_dir w @ [i, ''input'']"
  let ?files = "dir_entries fs ?inp ''.txt''"
  let ?hits = "concat (map (\<lambda>(name, content). file_hits q name content)
                         (readable_documents fs ?files))"
  from assms(2) obtain d fs1 where g: "get_input_dir w fs i = Inr (d, fs1)"
    by (auto simp: simple_search_def bind_error_def split: sum.splits)
  have d: "d = ?inp" using get_input_dir_result(1)[OF g] .
  have glob: "glob_suffix fs1 ?inp ''.txt'' = ?files"
    using glob_ready[OF get_input_dir_facts(2)[OF g]] get_input_dir_facts(3)[OF g, of ?inp]
    by simp
  have "\<forall>f \<in> set ?files. map_of fs f \<noteq> None" using dir_entries_listed by blast
  then have docs: "readable_documents fs1 ?files = readable_documents fs ?files"
    using readable_documents_extends[OF get_input_dir_facts(1)[OF g]] by blast
  obtain relevant log1 where
    sc: "scan_files fs1 (set (split_ws (lower q))) ?files [] [] = (relevant, log1)"
    by (cases "scan_files fs1 (set (split_ws (lower q))) ?files [] []") auto
  have rel: "relevant = ?hits"
    using scan_files_hits[of fs1 q ?files "[]" "[]"] sc docs by simp
  show ?thesis
  proof (cases "?files = []")
    case True
    then show ?thesis
      using assms(2) g d glob
      by (auto simp: simple_search_def bind_error_def spec_search_def readable_documents_def)
  next
    case False
    have run: "(if relevant = [] then Inr (None, fs1, log1)
                else Inr (Some (join chunk_separator
                                  (map format_chunk
                                     (slice_to (sort_reverse fst relevant) max_results))),
                          fs1,
                          log1 @ [Print (SearchFound
                                    (length (map format_chunk
                                       (slice_to (sort_reverse fst relevant) max_results))))]))
               = Inr (result, fs', log)"
      using assms(2) g d glob False sc
      by (auto simp: simple_search_def bind_error_def Let_def split: if_splits)
    have spec: "spec_search (readable_documents fs ?files) q max_results
                  = (if relevant = [] then None
                     else Some (join chunk_separator
                                  (map format_chunk
                                     (take (nat max_results)
                                        (sort_key (\<lambda>h. - int (fst h)) relevant)))))"
      unfolding spec_search_def Let_def rel ..
    show ?thesis
    proof (cases "relevant = []")
      case True
      then show ?thesis using run spec by simp
    next
      case ne: False
      then show ?thesis
        using run spec assms(1) by (simp add: sort_reverse_by_score slice_to_nonneg)
    qed
  qed
qed


lemma search_two:
  "simple_search world0 fs_two cid0 ''lease term'' 2
     = Inr (Some (format_chunk (2, clause_term, ''a.txt'') @ chunk_separator
                    @ format_chunk (2, clause_renewal, ''b.txt'')),
            fs_two, [Print (SearchFound 2)])"
  by code_simp

theorem simple_search_ranks_witness:
  "(0::int) \<le> 2
   \<and> Some (format_chunk (2, clause_term, ''a.txt'') @ chunk_separator
             @ format_chunk (2, clause_renewal, ''b.txt''))
       = spec_search (readable_documents fs_two
                        (dir_entries fs_two (base_dir world0 @ [cid0, ''input'']) ''.txt''))
           ''lease term'' 2"
proof -
  have h: "(0::int) \<le> 2" by simp
  from simple_search_ranks[OF h search_two] h show ?thesis by (rule conjI[rotated])
qed

text \<open>
  Claim C5 as stated, for every \<open>max_results\<close>, fails at \<open>max_results = -1\<close>. Three
  paragraphs score. The first \<open>-1\<close> of them are none; the search returns the first two,
  \<^verbatim>\<open>relevant[:-1]\<close> being the list without its last element.
\<close>

theorem simple_search_negative_counterexample:
  "simple_search world0 fs_two cid0 ''lease term'' (- 1)
     = Inr (Some (format_chunk (2, clause_term, ''a.txt'') @ chunk_separator
                    @ format_chunk (2, clause_renewal, ''b.txt'')),
            fs_two, [Print (SearchFound 2)])
   \<and> spec_search (readable_documents fs_two
                    (dir_entries fs_two (base_dir world0 @ [cid0, ''input'']) ''.txt''))
       ''lease term'' (- 1)
     = Some []
   \<and> format_chunk (2, clause_term, ''a.txt'') @ chunk_separator
       @ format_chunk (2, clause_renewal, ''b.txt'') \<noteq> []"
  by code_simp

end
